theory Spec2Isabelle
  imports Complex_Main
begin

section \<open>Numbers and vectors\<close>

text \<open>
  The particle model of \<^verbatim>\<open>src/js/model/Particle.js\<close> computes with JavaScript numbers,
  which are IEEE doubles. They are embedded as exact reals: rounding, NaN and the
  infinities are not part of this development. What is proved of the control flow of
  \<^verbatim>\<open>step\<close> (which fields it writes, when it does nothing, the teleport) does not depend
  on the arithmetic. What is proved of the values that the far branch computes is a
  statement of exact arithmetic and is marked as such: the doubles of the program differ
  from these values by rounding.

  \<^verbatim>\<open>Vector2\<close> is the two-dimensional vector of the DOT library, which the repository
  imports. Only the operations that the repository calls are embedded, with the meaning
  DOT gives them: \<^verbatim>\<open>distance\<close> is the Euclidean distance, \<^verbatim>\<open>plus\<close> and \<^verbatim>\<open>times\<close> work
  per component, \<^verbatim>\<open>createPolar(m, a)\<close> is the vector of magnitude \<^verbatim>\<open>m\<close> at angle \<^verbatim>\<open>a\<close>.
\<close>

record Vector2 =
  vx :: real
  vy :: real

definition ZERO :: Vector2 where
  "ZERO = \<lparr>vx = 0, vy = 0\<rparr>"

definition distance :: "Vector2 \<Rightarrow> Vector2 \<Rightarrow> real" where
  "distance a b =
     (let dx = vx a - vx b; dy = vy a - vy b in sqrt (dx * dx + dy * dy))"

definition plus_vec :: "Vector2 \<Rightarrow> Vector2 \<Rightarrow> Vector2" where
  "plus_vec a b = \<lparr>vx = vx a + vx b, vy = vy a + vy b\<rparr>"

definition times_vec :: "Vector2 \<Rightarrow> real \<Rightarrow> Vector2" where
  "times_vec a s = \<lparr>vx = vx a * s, vy = vy a * s\<rparr>"

definition createPolar :: "real \<Rightarrow> real \<Rightarrow> Vector2" where
  "createPolar magnitude angle = \<lparr>vx = magnitude * cos angle, vy = magnitude * sin angle\<rparr>"

text \<open>
  \<^verbatim>\<open>Math.atan2(y, x)\<close> on finite numbers: the angle of the point \<^verbatim>\<open>(x, y)\<close> in
  \<open>(-\<pi>, \<pi>]\<close>, and \<open>0\<close> at the origin.
\<close>

definition atan2 :: "real \<Rightarrow> real \<Rightarrow> real" where
  "atan2 y x =
     (if 0 < x then arctan (y / x)
      else if x < 0 then (if 0 \<le> y then arctan (y / x) + pi else arctan (y / x) - pi)
      else if 0 < y then pi / 2
      else if y < 0 then - (pi / 2)
      else 0)"

section \<open>The particle and its motion\<close>

text \<open>
  A \<^verbatim>\<open>Particle\<close> holds one value per property; \<^verbatim>\<open>isAccessibleControlled\<close> is the
  field that the view adds to a particle when a keyboard placement ends (\<open>None\<close> while it
  has never been assigned).
\<close>

record Particle =
  type :: string
  positionProperty :: Vector2
  destinationProperty :: Vector2
  radiusProperty :: real
  velocityProperty :: real
  userControlledProperty :: bool
  zLayerProperty :: int
  isAccessibleControlled :: "bool option"

definition DEFAULT_PARTICLE_VELOCITY :: real where
  "DEFAULT_PARTICLE_VELOCITY = 200"

text \<open>
  The constructor; the two radii come from \<^verbatim>\<open>ShredConstants\<close> and are parameters here.
\<close>

definition newParticle :: "real \<Rightarrow> real \<Rightarrow> string \<Rightarrow> Particle" where
  "newParticle ELECTRON_RADIUS NUCLEON_RADIUS t =
     \<lparr>type = t,
      positionProperty = ZERO,
      destinationProperty = ZERO,
      radiusProperty = (if t = ''electron'' then ELECTRON_RADIUS else NUCLEON_RADIUS),
      velocityProperty = DEFAULT_PARTICLE_VELOCITY,
      userControlledProperty = False,
      zLayerProperty = 0,
      isAccessibleControlled = None\<rparr>"

definition moveImmediatelyToDestination :: "Particle \<Rightarrow> Particle" where
  "moveImmediatelyToDestination p = p\<lparr>positionProperty := destinationProperty p\<rparr>"

definition step :: "real \<Rightarrow> Particle \<Rightarrow> Particle" where
  "step dt p =
     (if \<not> userControlledProperty p then
        let position = positionProperty p;
            destination = destinationProperty p;
            velocity = velocityProperty p;
            distanceToDestination = distance position destination
        in if distanceToDestination > dt * velocity then
             let stepMagnitude = velocity * dt;
                 stepAngle = atan2 (vy destination - vy position) (vx destination - vx position);
                 stepVector = createPolar stepMagnitude stepAngle
             in p\<lparr>positionProperty := plus_vec position stepVector\<rparr>
           else if distanceToDestination > 0 then moveImmediatelyToDestination p
           else p
      else p)"

text \<open>Repeated ticks of the simulation clock with one \<open>dt\<close>.\<close>

fun steps :: "nat \<Rightarrow> real \<Rightarrow> Particle \<Rightarrow> Particle" where
  "steps 0 dt p = p"
| "steps (Suc n) dt p = steps n dt (step dt p)"

text \<open>
  What a caller may pass to \<^verbatim>\<open>setPositionAndDestination\<close>: an instance of \<^verbatim>\<open>Vector2\<close>,
  or any other JavaScript value (for which \<^verbatim>\<open>instanceof Vector2\<close> is false).
\<close>

datatype argument = IsVector2 Vector2 | NotVector2

datatype error = AssertionFailed string | TypeError

text \<open>
  \<^verbatim>\<open>assert\<close> is the global of the PhET assertion module: a function that throws when
  assertions are enabled, and undefined otherwise, so that \<^verbatim>\<open>assert && assert(...)\<close>
  does nothing. Whether it is enabled is the first parameter.
\<close>

definition setPositionAndDestination :: "bool \<Rightarrow> argument \<Rightarrow> Particle \<Rightarrow> error + Particle" where
  "setPositionAndDestination assertEnabled newPosition p =
     (case newPosition of
        NotVector2 \<Rightarrow>
          if assertEnabled then Inl (AssertionFailed ''Attempt to set non-vector position.'')
          else Inr p
      | IsVector2 v \<Rightarrow> Inr (moveImmediatelyToDestination (p\<lparr>destinationProperty := v\<rparr>)))"

text \<open>The distance that \<^verbatim>\<open>step\<close> computes first, under the name it has there.\<close>

definition distanceToDestination :: "Particle \<Rightarrow> real" where
  "distanceToDestination p = distance (positionProperty p) (destinationProperty p)"

section \<open>The keyboard placement of \<^verbatim>\<open>ElectronShellView.js\<close>\<close>

text \<open>
  The view and its two rings are objects that key listeners mutate; particles and bucket
  fronts are objects shared with the rest of the simulation. The embedding passes one
  \<open>world\<close> value through every operation: the fields of the view, the two rings, a store of
  the particles by reference, and what the listeners do to their surroundings (the node
  that has input focus, the calls of \<^verbatim>\<open>bucket.addParticleFirstOpen\<close>, the callbacks
  handed to \<^verbatim>\<open>setTimeout\<close> that have not run yet). A listener that throws is \<open>Inl\<close>;
  the fields it had written before throwing are not kept in that case. Observers of the
  particle properties and the body of \<^verbatim>\<open>addParticleFirstOpen\<close> belong to other files:
  a call is recorded, its own effect on the particle is not part of the world.
\<close>

type_synonym particleRef = nat
type_synonym bucketFrontRef = nat

datatype keyCode =
  KEY_DOWN_ARROW | KEY_RIGHT_ARROW | KEY_UP_ARROW | KEY_LEFT_ARROW
| KEY_ENTER | KEY_SPACE | KEY_TAB | KEY_ESCAPE | KEY_OTHER

datatype ringId = InnerRing | OuterRing

datatype shellOption = CenterOption | RingOption ringId

datatype focusTarget =
  OptionNode shellOption | PlacementNode ringId nat | BucketFrontNode bucketFrontRef

datatype timeout = RefocusFromView | RefocusFromRing ringId

text \<open>
  One placement marker of a ring (the \<^verbatim>\<open>dash\<close> rectangles). The constructor passes
  \<^verbatim>\<open>focusable: false\<close> and sets \<^verbatim>\<open>visible = false\<close>; it never assigns
  \<^verbatim>\<open>accessibleHidden\<close>, which is \<open>None\<close> until a listener does.
\<close>

record placementNode =
  focusable :: bool
  accessibleHidden :: "bool option"
  visible :: bool

text \<open>
  \<^verbatim>\<open>previouslyFocusedElectron\<close> refers to one of the ring's own markers, by its place in
  \<^verbatim>\<open>electronPlacementNodes\<close>; it is \<open>None\<close> when the ring was built without markers
  (\<^verbatim>\<open>electronPlacementNodes[ 0 ]\<close> is then undefined). \<^verbatim>\<open>choosingElectronPlaement\<close> is
  the field that the listener assigns under that spelling.
\<close>

record ElectronRingNode =
  electronShellPositions :: "Vector2 list"
  electronPlacementNodes :: "placementNode list"
  choosingElectronPlacement :: bool
  choosingElectronPlaement :: "bool option"
  currentOptionIndex_ring :: int
  activeParticle :: "particleRef option"
  activeBucketFront :: "bucketFrontRef option"
  previouslyFocusedElectron :: "nat option"

record world =
  particles :: "particleRef \<Rightarrow> Particle"
  selectingShellNucleusOptions :: bool
  previouslyFocusedNode :: shellOption
  currentOptionIndex :: int
  currentlyDraggedParticle :: "particleRef option"
  currentlySelectedBucketFront :: "bucketFrontRef option"
  focusable_view :: "bool option"
  accessibleHidden_view :: "bool option"
  shellNucleusHoverLocations :: "shellOption \<Rightarrow> Vector2"
  innerRing :: ElectronRingNode
  outerRing :: ElectronRingNode
  particleCount :: nat
  focus :: "focusTarget option"
  addParticleFirstOpenCalls :: "(bucketFrontRef \<times> particleRef \<times> bool) list"
  timeouts :: "timeout list"

definition shellNucluesOptions :: "shellOption list" where
  "shellNucluesOptions = [CenterOption, RingOption InnerRing, RingOption OuterRing]"

text \<open>
  Reading a JavaScript array at a number: the element, or undefined (\<open>None\<close>) outside
  the array.
\<close>

definition at_index :: "'a list \<Rightarrow> int \<Rightarrow> 'a option" where
  "at_index xs i = (if 0 \<le> i \<and> i < int (length xs) then Some (xs ! nat i) else None)"

text \<open>
  The operator \<^verbatim>\<open>%\<close> on integers: the remainder has the sign of the dividend, and the
  remainder by zero is NaN (\<open>None\<close>).
\<close>

definition js_rem :: "int \<Rightarrow> int \<Rightarrow> int option" where
  "js_rem a n = (if n = 0 then None else Some (sgn a * (\<bar>a\<bar> mod \<bar>n\<bar>)))"

definition ringOf :: "ringId \<Rightarrow> world \<Rightarrow> ElectronRingNode" where
  "ringOf r w = (case r of InnerRing \<Rightarrow> innerRing w | OuterRing \<Rightarrow> outerRing w)"

definition setRing :: "ringId \<Rightarrow> ElectronRingNode \<Rightarrow> world \<Rightarrow> world" where
  "setRing r ring w =
     (case r of InnerRing \<Rightarrow> w\<lparr>innerRing := ring\<rparr> | OuterRing \<Rightarrow> w\<lparr>outerRing := ring\<rparr>)"

definition updateParticle :: "particleRef \<Rightarrow> (Particle \<Rightarrow> Particle) \<Rightarrow> world \<Rightarrow> world" where
  "updateParticle particle f w = w\<lparr>particles := (particles w)(particle := f (particles w particle))\<rparr>"

definition updateNode ::
  "nat \<Rightarrow> (placementNode \<Rightarrow> placementNode) \<Rightarrow> placementNode list \<Rightarrow> placementNode list" where
  "updateNode k f nodes = (if k < length nodes then nodes[k := f (nodes ! k)] else nodes)"

definition isDownRight :: "keyCode \<Rightarrow> bool" where
  "isDownRight keyCode \<longleftrightarrow> keyCode = KEY_DOWN_ARROW \<or> keyCode = KEY_RIGHT_ARROW"

definition isUpLeft :: "keyCode \<Rightarrow> bool" where
  "isUpLeft keyCode \<longleftrightarrow> keyCode = KEY_UP_ARROW \<or> keyCode = KEY_LEFT_ARROW"

text \<open>The keys of the branch commented "place or end condition" in both listeners.\<close>

definition isPlaceOrEnd :: "keyCode \<Rightarrow> bool" where
  "isPlaceOrEnd keyCode \<longleftrightarrow>
     keyCode = KEY_ENTER \<or> keyCode = KEY_SPACE \<or> keyCode = KEY_TAB \<or> keyCode = KEY_ESCAPE"

subsection \<open>Construction\<close>

definition newElectronRingNode :: "Vector2 list \<Rightarrow> ElectronRingNode" where
  "newElectronRingNode positions =
     \<lparr>electronShellPositions = positions,
      electronPlacementNodes =
        map (\<lambda>_. \<lparr>focusable = False, accessibleHidden = None, visible = False\<rparr>) positions,
      choosingElectronPlacement = False,
      choosingElectronPlaement = None,
      currentOptionIndex_ring = 0,
      activeParticle = None,
      activeBucketFront = None,
      previouslyFocusedElectron = (if positions = [] then None else Some 0)\<rparr>"

text \<open>
  The view as its constructor leaves it. The atom gives the slot positions, the two shell
  radii, the nucleus radius (whose link runs once at construction and sets the hover
  location of the nucleus option) and the particle count; the particle store and the
  focus are whatever the simulation has at that moment.
\<close>

definition newElectronShellView ::
  "(particleRef \<Rightarrow> Particle) \<Rightarrow> Vector2 list \<Rightarrow> real \<Rightarrow> real \<Rightarrow> real \<Rightarrow> nat \<Rightarrow> focusTarget option \<Rightarrow> world" where
  "newElectronShellView store atomElectronShellPositions innerElectronShellRadius
       outerElectronShellRadius nucleusRadius count focused =
     \<lparr>particles = store,
      selectingShellNucleusOptions = False,
      previouslyFocusedNode = CenterOption,
      currentOptionIndex = 0,
      currentlyDraggedParticle = None,
      currentlySelectedBucketFront = None,
      focusable_view = None,
      accessibleHidden_view = None,
      shellNucleusHoverLocations =
        (\<lambda>option. case option of
           CenterOption \<Rightarrow>
             (let radiusOffset = (if nucleusRadius = 0 then 0 else 7)
              in \<lparr>vx = nucleusRadius + radiusOffset, vy = radiusOffset\<rparr>)
         | RingOption InnerRing \<Rightarrow> \<lparr>vx = innerElectronShellRadius + 10, vy = 10\<rparr>
         | RingOption OuterRing \<Rightarrow> \<lparr>vx = outerElectronShellRadius + 10, vy = 10\<rparr>),
      innerRing = newElectronRingNode (take 2 atomElectronShellPositions),
      outerRing = newElectronRingNode (drop 2 atomElectronShellPositions),
      particleCount = count,
      focus = focused,
      addParticleFirstOpenCalls = [],
      timeouts = []\<rparr>"

subsection \<open>Starting a selection\<close>

definition accessibleSelect :: "particleRef \<Rightarrow> bucketFrontRef \<Rightarrow> world \<Rightarrow> world" where
  "accessibleSelect particle bucketFront w =
     w\<lparr>selectingShellNucleusOptions := True,
       accessibleHidden_view := Some False,
       focus := Some (OptionNode (previouslyFocusedNode w)),
       currentlyDraggedParticle := Some particle,
       currentlySelectedBucketFront := Some bucketFront\<rparr>"

definition chooseElectron ::
  "ringId \<Rightarrow> particleRef \<Rightarrow> bucketFrontRef \<Rightarrow> world \<Rightarrow> error + world" where
  "chooseElectron r particle bucketFront w =
     (let ring = ringOf r w;
          shown = map (\<lambda>childCircle.
                    childCircle\<lparr>focusable := True, accessibleHidden := Some False, visible := True\<rparr>)
                    (electronPlacementNodes ring)
      in case at_index (electronShellPositions ring) (currentOptionIndex_ring ring) of
           None \<Rightarrow> Inl TypeError
         | Some position \<Rightarrow>
             (case previouslyFocusedElectron ring of
                None \<Rightarrow> Inl TypeError
              | Some k \<Rightarrow>
                  Inr (setRing r
                         (ring\<lparr>activeParticle := Some particle,
                               activeBucketFront := Some bucketFront,
                               choosingElectronPlacement := True,
                               electronPlacementNodes :=
                                 updateNode k (\<lambda>n. n\<lparr>visible := False\<rparr>) shown\<rparr>)
                         (updateParticle particle
                            (\<lambda>p. p\<lparr>destinationProperty := times_vec position 1.05\<rparr>)
                            (w\<lparr>focus := Some (PlacementNode r k)\<rparr>)))))"

subsection \<open>The key listener of the view (nucleus, inner ring, outer ring)\<close>

definition keydown_view :: "keyCode \<Rightarrow> world \<Rightarrow> error + world" where
  "keydown_view keyCode w =
     (if selectingShellNucleusOptions w then
        if isDownRight keyCode \<or> isUpLeft keyCode then
          (case (if isDownRight keyCode
                 then js_rem (currentOptionIndex w + 1) (int (length shellNucluesOptions))
                 else Some (if currentOptionIndex w - 1 < 0
                            then int (length shellNucluesOptions) - 1
                            else currentOptionIndex w - 1)) of
             None \<Rightarrow> Inl TypeError
           | Some i \<Rightarrow>
               (case at_index shellNucluesOptions i of
                  None \<Rightarrow> Inl TypeError
                | Some currentNode \<Rightarrow>
                    (case currentlyDraggedParticle w of
                       None \<Rightarrow> Inl TypeError
                     | Some particle \<Rightarrow>
                         Inr (updateParticle particle
                                (\<lambda>p. p\<lparr>destinationProperty :=
                                          shellNucleusHoverLocations w currentNode\<rparr>)
                                (w\<lparr>currentOptionIndex := i,
                                   focus := Some (OptionNode currentNode),
                                   previouslyFocusedNode := currentNode\<rparr>)))))
        else if isPlaceOrEnd keyCode then
          (case (currentlyDraggedParticle w, currentlySelectedBucketFront w) of
             (Some particle, Some bucketFront) \<Rightarrow>
               if currentOptionIndex w = 0 \<or> keyCode = KEY_TAB \<or> keyCode = KEY_ESCAPE then
                 let w1 = (if keyCode = KEY_TAB \<or> keyCode = KEY_ESCAPE
                           then w\<lparr>addParticleFirstOpenCalls :=
                                    addParticleFirstOpenCalls w @ [(bucketFront, particle, True)]\<rparr>
                           else w);
                     w2 = updateParticle particle
                            (\<lambda>p. p\<lparr>userControlledProperty := False,
                                   isAccessibleControlled := Some False\<rparr>) w1;
                     w3 = (if particleCount w2 = 0 then w2\<lparr>focusable_view := Some False\<rparr> else w2);
                     w4 = w3\<lparr>currentlyDraggedParticle := None\<rparr>
                 in if keyCode \<noteq> KEY_TAB
                    then Inr (w4\<lparr>timeouts := timeouts w4 @ [RefocusFromView]\<rparr>)
                    else Inr (w4\<lparr>currentlySelectedBucketFront := None\<rparr>)
               else
                 (case at_index shellNucluesOptions (currentOptionIndex w) of
                    Some (RingOption r) \<Rightarrow>
                      chooseElectron r particle bucketFront
                        (w\<lparr>selectingShellNucleusOptions := False\<rparr>)
                  | _ \<Rightarrow> Inl TypeError)
           | _ \<Rightarrow> Inr w)
        else Inr w
      else Inr w)"

subsection \<open>The key listener of a ring (its slots)\<close>

definition keydown_ring :: "ringId \<Rightarrow> keyCode \<Rightarrow> world \<Rightarrow> error + world" where
  "keydown_ring r keyCode w =
     (let ring = ringOf r w in
      case (choosingElectronPlacement ring, activeParticle ring, activeBucketFront ring) of
        (True, Some particle, Some bucketFront) \<Rightarrow>
          if isDownRight keyCode \<or> isUpLeft keyCode then
            (case (if isUpLeft keyCode
                   then js_rem (currentOptionIndex_ring ring + 1)
                          (int (length (electronPlacementNodes ring)))
                   else Some (if currentOptionIndex_ring ring - 1 < 0
                              then int (length (electronPlacementNodes ring)) - 1
                              else currentOptionIndex_ring ring - 1)) of
               None \<Rightarrow> Inl TypeError
             | Some i \<Rightarrow>
                 (case previouslyFocusedElectron ring of
                    None \<Rightarrow> Inl TypeError
                  | Some k \<Rightarrow>
                      (case at_index (electronPlacementNodes ring) i of
                         None \<Rightarrow> Inl TypeError
                       | Some currentNode \<Rightarrow>
                           (case at_index (electronShellPositions ring) i of
                              None \<Rightarrow> Inl TypeError
                            | Some position \<Rightarrow>
                                Inr (setRing r
                                       (ring\<lparr>currentOptionIndex_ring := i,
                                             electronPlacementNodes :=
                                               updateNode (nat i) (\<lambda>n. n\<lparr>visible := False\<rparr>)
                                                 (updateNode k (\<lambda>n. n\<lparr>visible := True\<rparr>)
                                                    (electronPlacementNodes ring)),
                                             previouslyFocusedElectron := Some (nat i)\<rparr>)
                                       (updateParticle particle
                                          (\<lambda>p. p\<lparr>destinationProperty := times_vec position 1.05\<rparr>)
                                          (w\<lparr>focus := Some (PlacementNode r (nat i))\<rparr>)))))))
          else if isPlaceOrEnd keyCode then
            let w1 = (if keyCode = KEY_TAB \<or> keyCode = KEY_ESCAPE
                      then w\<lparr>addParticleFirstOpenCalls :=
                               addParticleFirstOpenCalls w @ [(bucketFront, particle, True)]\<rparr>
                      else w);
                w2 = updateParticle particle
                       (\<lambda>p. p\<lparr>userControlledProperty := False,
                              isAccessibleControlled := Some False\<rparr>) w1;
                ring1 = ring\<lparr>choosingElectronPlaement := Some False,
                             electronPlacementNodes :=
                               map (\<lambda>childCircle.
                                      childCircle\<lparr>focusable := False,
                                                  accessibleHidden := Some True,
                                                  visible := False\<rparr>)
                                   (electronPlacementNodes ring),
                             activeParticle := None\<rparr>
            in if keyCode \<noteq> KEY_TAB
               then Inr (setRing r ring1 (w2\<lparr>timeouts := timeouts w2 @ [RefocusFromRing r]\<rparr>))
               else Inr (setRing r (ring1\<lparr>activeBucketFront := None\<rparr>) w2)
          else Inr w
      | _ \<Rightarrow> Inr w)"

subsection \<open>The deferred callbacks\<close>

text \<open>
  Each callback reads the bucket front from the field at the moment it runs, focuses it and
  clears the field; on a field that is already null the call of \<^verbatim>\<open>focus\<close> throws.
\<close>

definition runTimeout :: "timeout \<Rightarrow> world \<Rightarrow> error + world" where
  "runTimeout t w =
     (case t of
        RefocusFromView \<Rightarrow>
          (case currentlySelectedBucketFront w of
             None \<Rightarrow> Inl TypeError
           | Some bucketFront \<Rightarrow>
               Inr (w\<lparr>focus := Some (BucketFrontNode bucketFront),
                      currentlySelectedBucketFront := None\<rparr>))
      | RefocusFromRing r \<Rightarrow>
          (case activeBucketFront (ringOf r w) of
             None \<Rightarrow> Inl TypeError
           | Some bucketFront \<Rightarrow>
               Inr (setRing r ((ringOf r w)\<lparr>activeBucketFront := None\<rparr>)
                      (w\<lparr>focus := Some (BucketFrontNode bucketFront)\<rparr>))))"

text \<open>The timer of a pending callback expires: the callback leaves the queue and runs.\<close>

definition fireTimeout :: "timeout \<Rightarrow> world \<Rightarrow> error + world" where
  "fireTimeout t w =
     (if t \<in> set (timeouts w) then runTimeout t (w\<lparr>timeouts := remove1 t (timeouts w)\<rparr>)
      else Inr w)"

subsection \<open>Sequences of events\<close>

text \<open>
  What can happen to the view: a caller starts a selection, a key reaches the listener of
  the view or of one ring, or a pending callback runs. A throw ends a sequence.
\<close>

datatype event =
  AccessibleSelect particleRef bucketFrontRef
| KeydownView keyCode
| KeydownRing ringId keyCode
| FireTimeout timeout

fun dispatch :: "event \<Rightarrow> world \<Rightarrow> error + world" where
  "dispatch (AccessibleSelect particle bucketFront) w = Inr (accessibleSelect particle bucketFront w)"
| "dispatch (KeydownView keyCode) w = keydown_view keyCode w"
| "dispatch (KeydownRing r keyCode) w = keydown_ring r keyCode w"
| "dispatch (FireTimeout t) w = fireTimeout t w"

fun run :: "event list \<Rightarrow> world \<Rightarrow> error + world" where
  "run [] w = Inr w"
| "run (e # es) w = (case dispatch e w of Inl err \<Rightarrow> Inl err | Inr w' \<Rightarrow> run es w')"

subsection \<open>Sessions\<close>

text \<open>
  A listener holds a placement session while it holds a particle: the view in
  \<^verbatim>\<open>currentlyDraggedParticle\<close> while \<^verbatim>\<open>selectingShellNucleusOptions\<close> is set, a ring in
  \<^verbatim>\<open>activeParticle\<close>. The world is idle when no listener does.
\<close>

definition idle :: "world \<Rightarrow> bool" where
  "idle w \<longleftrightarrow>
     (selectingShellNucleusOptions w \<longrightarrow> currentlyDraggedParticle w = None) \<and>
     activeParticle (innerRing w) = None \<and> activeParticle (outerRing w) = None"

text \<open>
  A ring in which the slot listener can navigate: a session is under way, the ring has as
  many markers as positions (the constructor makes one per position), and one of them is
  the previously focused one.
\<close>

definition choosing :: "ringId \<Rightarrow> particleRef \<Rightarrow> bucketFrontRef \<Rightarrow> world \<Rightarrow> bool" where
  "choosing r particle bucketFront w \<longleftrightarrow>
     choosingElectronPlacement (ringOf r w) \<and>
     activeParticle (ringOf r w) = Some particle \<and>
     activeBucketFront (ringOf r w) = Some bucketFront \<and>
     length (electronShellPositions (ringOf r w)) = length (electronPlacementNodes (ringOf r w)) \<and>
     previouslyFocusedElectron (ringOf r w) \<noteq> None"

text \<open>
  What the listeners keep true of the indices. The index of a ring is never negative and
  stays inside the ring's markers (a ring built without markers keeps index 0 and never
  holds a particle); a ring has one marker per position, and a previously focused marker
  when it has any. The index of the top level stays inside the three options.
\<close>

definition ringInv :: "ElectronRingNode \<Rightarrow> bool" where
  "ringInv ring \<longleftrightarrow>
     length (electronShellPositions ring) = length (electronPlacementNodes ring) \<and>
     0 \<le> currentOptionIndex_ring ring \<and>
     (currentOptionIndex_ring ring < int (length (electronPlacementNodes ring)) \<or>
      currentOptionIndex_ring ring = 0 \<and> activeParticle ring = None) \<and>
     (electronPlacementNodes ring \<noteq> [] \<longrightarrow> previouslyFocusedElectron ring \<noteq> None)"

definition indicesInRange :: "world \<Rightarrow> bool" where
  "indicesInRange w \<longleftrightarrow>
     0 \<le> currentOptionIndex w \<and> currentOptionIndex w < 3 \<and>
     ringInv (innerRing w) \<and> ringInv (outerRing w)"





subsection \<open>A concrete atom\<close>

text \<open>
  An atom with two slots on the inner shell and eight on the outer one, no particles yet,
  and a store in which every reference is a fresh electron: the input of the evaluations
  below.
\<close>

definition exampleStore :: "particleRef \<Rightarrow> Particle" where
  "exampleStore = (\<lambda>_. newParticle 1 2 ''electron'')"

definition examplePositions :: "Vector2 list" where
  "examplePositions =
     [\<lparr>vx = 34, vy = 0\<rparr>, \<lparr>vx = -34, vy = 0\<rparr>,
      \<lparr>vx = 102, vy = 0\<rparr>, \<lparr>vx = 72, vy = 72\<rparr>, \<lparr>vx = 0, vy = 102\<rparr>, \<lparr>vx = -72, vy = 72\<rparr>,
      \<lparr>vx = -102, vy = 0\<rparr>, \<lparr>vx = -72, vy = -72\<rparr>, \<lparr>vx = 0, vy = -102\<rparr>, \<lparr>vx = 72, vy = -72\<rparr>]"

definition exampleView :: world where
  "exampleView = newElectronShellView exampleStore examplePositions 34 102 0 0 None"

text \<open>A particle at the origin, bound for a point on the x axis.\<close>

definition exampleParticle :: "real \<Rightarrow> Particle" where
  "exampleParticle d = (newParticle 1 2 ''proton'')\<lparr>destinationProperty := \<lparr>vx = d, vy = 0\<rparr>\<rparr>"

section \<open>Properties of the motion controller\<close>

subsection \<open>Angles and distances\<close>

lemma sqrt_one_plus_div:
  assumes "a \<noteq> 0"
  shows "sqrt (1 + (b / a)\<^sup>2) = sqrt (a * a + b * b) / \<bar>a\<bar>"
proof -
  have "1 + (b / a)\<^sup>2 = (a * a + b * b) / (a * a)"
    using assms by (simp add: power2_eq_square add_divide_distrib)
  then have "sqrt (1 + (b / a)\<^sup>2) = sqrt (a * a + b * b) / sqrt (a * a)"
    by (simp only: real_sqrt_divide)
  then show ?thesis by simp
qed

lemma cos_arctan_div:
  "a \<noteq> 0 \<Longrightarrow> cos (arctan (b / a)) = \<bar>a\<bar> / sqrt (a * a + b * b)"
  by (simp add: cos_arctan sqrt_one_plus_div)

lemma sin_arctan_div:
  "a \<noteq> 0 \<Longrightarrow> sin (arctan (b / a)) = (b / a) * \<bar>a\<bar> / sqrt (a * a + b * b)"
  by (simp add: sin_arctan sqrt_one_plus_div)

lemma cos_atan2:
  assumes "a \<noteq> 0 \<or> b \<noteq> 0"
  shows "cos (atan2 b a) = a / sqrt (a * a + b * b)"
proof -
  consider "0 < a" | "a < 0" | "a = 0" by linarith
  then show ?thesis
  proof cases
    case 1 then show ?thesis by (simp add: atan2_def cos_arctan_div)
  next
    case 2 then show ?thesis by (simp add: atan2_def cos_arctan_div)
  next
    case 3 then show ?thesis using assms by (simp add: atan2_def)
  qed
qed

lemma sin_atan2:
  assumes "a \<noteq> 0 \<or> b \<noteq> 0"
  shows "sin (atan2 b a) = b / sqrt (a * a + b * b)"
proof -
  consider "0 < a" | "a < 0" | "a = 0" "0 < b" | "a = 0" "b < 0" using assms by linarith
  then show ?thesis
  proof cases
    case 1 then show ?thesis by (simp add: atan2_def sin_arctan_div)
  next
    case 2 then show ?thesis by (simp add: atan2_def sin_arctan_div)
  next
    case 3 then show ?thesis by (simp add: atan2_def)
  next
    case 4 then show ?thesis by (simp add: atan2_def)
  qed
qed

lemma distance_nonneg: "0 \<le> distance a b"
  by (simp add: distance_def Let_def)

lemma distance_commute: "distance a b = distance b a"
proof -
  have "(vx a - vx b) * (vx a - vx b) = (vx b - vx a) * (vx b - vx a)"
       "(vy a - vy b) * (vy a - vy b) = (vy b - vy a) * (vy b - vy a)"
    by (simp_all add: algebra_simps)
  then show ?thesis by (simp add: distance_def Let_def)
qed

lemma distance_alt:
  "distance a d = sqrt ((vx d - vx a) * (vx d - vx a) + (vy d - vy a) * (vy d - vy a))"
  using distance_commute [of a d] by (simp add: distance_def [of d a] Let_def)

lemma distance_zero_iff: "distance a b = 0 \<longleftrightarrow> a = b"
proof
  assume "distance a b = 0"
  then have "(vx a - vx b) * (vx a - vx b) + (vy a - vy b) * (vy a - vy b) = 0"
    by (simp add: distance_def Let_def)
  then have "vx a = vx b \<and> vy a = vy b"
    by (simp add: sum_squares_eq_zero_iff)
  then show "a = b" by simp
next
  assume "a = b"
  then show "distance a b = 0" by (simp add: distance_def)
qed

lemma distance_pos_iff: "0 < distance a b \<longleftrightarrow> a \<noteq> b"
  using distance_nonneg [of a b] distance_zero_iff [of a b] by linarith

text \<open>The length of a polar vector is the absolute value of its magnitude.\<close>
lemma distance_plus_createPolar: "distance (plus_vec a (createPolar m t)) a = \<bar>m\<bar>"
proof -
  have "m * cos t * (m * cos t) + m * sin t * (m * sin t) = (m * m) * (cos t * cos t + sin t * sin t)"
    by algebra
  then have "m * cos t * (m * cos t) + m * sin t * (m * sin t) = m * m"
    by (simp only: sin_cos_squared_add3 mult_1_right)
  then show ?thesis by (simp add: distance_def plus_vec_def createPolar_def)
qed

text \<open>A polar step at the angle of the bearing lies on the straight line to the destination.\<close>
lemma createPolar_bearing:
  assumes "0 < distance a d"
  shows "vx (createPolar m (atan2 (vy d - vy a) (vx d - vx a))) = m * (vx d - vx a) / distance a d"
    and "vy (createPolar m (atan2 (vy d - vy a) (vx d - vx a))) = m * (vy d - vy a) / distance a d"
proof -
  have ne: "vx d - vx a \<noteq> 0 \<or> vy d - vy a \<noteq> 0"
    using assms distance_pos_iff [of a d] by (auto simp: Vector2.equality)
  have r: "distance a d = sqrt ((vx d - vx a) * (vx d - vx a) + (vy d - vy a) * (vy d - vy a))"
    by (rule distance_alt)
  show "vx (createPolar m (atan2 (vy d - vy a) (vx d - vx a))) = m * (vx d - vx a) / distance a d"
    by (simp add: createPolar_def cos_atan2 [OF ne] r)
  show "vy (createPolar m (atan2 (vy d - vy a) (vx d - vx a))) = m * (vy d - vy a) / distance a d"
    by (simp add: createPolar_def sin_atan2 [OF ne] r)
qed

text \<open>After a step of length \<open>m\<close> below the remaining distance, the remaining distance is smaller by \<open>m\<close>.\<close>
lemma distance_after_polar:
  assumes "m < distance a d" and "0 < distance a d"
  shows "distance (plus_vec a (createPolar m (atan2 (vy d - vy a) (vx d - vx a)))) d = distance a d - m"
proof -
  define r where "r = distance a d"
  define dx where "dx = vx d - vx a"
  define dy where "dy = vy d - vy a"
  have rpos: "0 < r" and mr: "m < r" using assms by (simp_all add: r_def)
  have r2: "r * r = dx * dx + dy * dy"
  proof -
    have "r = sqrt (dx * dx + dy * dy)"
      by (simp add: r_def dx_def dy_def distance_alt)
    moreover have "0 \<le> dx * dx + dy * dy" by simp
    ultimately show ?thesis by (metis real_sqrt_mult_self abs_of_nonneg)
  qed
  define c where "c = 1 - m / r"
  let ?q = "plus_vec a (createPolar m (atan2 dy dx))"
  have qx: "vx ?q - vx d = - (c * dx)"
    using createPolar_bearing(1) [OF assms(2), of m] rpos
    by (simp add: plus_vec_def r_def dx_def dy_def c_def algebra_simps)
  have qy: "vy ?q - vy d = - (c * dy)"
    using createPolar_bearing(2) [OF assms(2), of m] rpos
    by (simp add: plus_vec_def r_def dx_def dy_def c_def algebra_simps)
  have "distance ?q d = sqrt ((c * dx) * (c * dx) + (c * dy) * (c * dy))"
    unfolding distance_def Let_def qx qy by simp
  also have "(c * dx) * (c * dx) + (c * dy) * (c * dy) = (c * c) * (dx * dx + dy * dy)"
    by algebra
  also have "\<dots> = (c * r) * (c * r)"
    unfolding r2 [symmetric] by algebra
  also have "sqrt ((c * r) * (c * r)) = \<bar>c * r\<bar>"
    by simp
  also have "c * r = r - m" using rpos by (simp add: c_def field_simps)
  also have "\<bar>r - m\<bar> = r - m" using mr by simp
  finally show ?thesis by (simp add: r_def dx_def dy_def)
qed

subsection \<open>One step\<close>

lemma step_frame:
  "destinationProperty (step dt p) = destinationProperty p"
  "velocityProperty (step dt p) = velocityProperty p"
  "userControlledProperty (step dt p) = userControlledProperty p"
  "radiusProperty (step dt p) = radiusProperty p"
  "zLayerProperty (step dt p) = zLayerProperty p"
  "type (step dt p) = type p"
  "isAccessibleControlled (step dt p) = isAccessibleControlled p"
  by (simp_all add: step_def moveImmediatelyToDestination_def Let_def)

lemma step_userControlled: "userControlledProperty p \<Longrightarrow> step dt p = p"
  by (simp add: step_def)

lemma step_far:
  assumes "\<not> userControlledProperty p"
    and "distance (positionProperty p) (destinationProperty p) > dt * velocityProperty p"
  shows "step dt p = p\<lparr>positionProperty :=
           plus_vec (positionProperty p)
             (createPolar (velocityProperty p * dt)
                (atan2 (vy (destinationProperty p) - vy (positionProperty p))
                       (vx (destinationProperty p) - vx (positionProperty p))))\<rparr>"
  using assms by (simp add: step_def Let_def)

lemma step_near:
  assumes "\<not> userControlledProperty p"
    and "\<not> distance (positionProperty p) (destinationProperty p) > dt * velocityProperty p"
    and "distance (positionProperty p) (destinationProperty p) > 0"
  shows "step dt p = p\<lparr>positionProperty := destinationProperty p\<rparr>"
  using assms by (simp add: step_def Let_def moveImmediatelyToDestination_def)

lemma step_arrived:
  assumes "\<not> distance (positionProperty p) (destinationProperty p) > dt * velocityProperty p"
    and "\<not> distance (positionProperty p) (destinationProperty p) > 0"
  shows "step dt p = p"
  using assms by (simp add: step_def Let_def)

lemma distanceToDestination_step:
  assumes "\<not> userControlledProperty p" and "0 \<le> dt * velocityProperty p"
  shows "distanceToDestination (step dt p) = max 0 (distanceToDestination p - dt * velocityProperty p)"
proof -
  let ?r = "distance (positionProperty p) (destinationProperty p)"
  consider "?r > dt * velocityProperty p" | "\<not> ?r > dt * velocityProperty p" "?r > 0"
    | "\<not> ?r > dt * velocityProperty p" "\<not> ?r > 0" by blast
  then show ?thesis
  proof cases
    case 1
    then have pos: "0 < ?r" using assms(2) by linarith
    have m: "velocityProperty p * dt < ?r" using 1 by (simp add: mult.commute)
    show ?thesis
      using 1 distance_after_polar [OF m pos]
      by (simp add: distanceToDestination_def step_far [OF assms(1) 1] mult.commute)
  next
    case 2
    then show ?thesis
      by (simp add: distanceToDestination_def step_near [OF assms(1)] distance_zero_iff [THEN iffD2])
  next
    case 3
    then show ?thesis
      using distance_nonneg [of "positionProperty p" "destinationProperty p"]
      by (simp add: distanceToDestination_def step_arrived)
  qed
qed

lemma steps_frame:
  "destinationProperty (steps n dt p) = destinationProperty p"
  "velocityProperty (steps n dt p) = velocityProperty p"
  "userControlledProperty (steps n dt p) = userControlledProperty p"
  by (induction n arbitrary: p) (simp_all add: step_frame)

lemma steps_Suc: "steps (Suc n) dt p = step dt (steps n dt p)"
  by (induction n arbitrary: p) simp_all

lemma distanceToDestination_steps:
  assumes "\<not> userControlledProperty p" and "0 \<le> dt * velocityProperty p"
  shows "distanceToDestination (steps n dt p) = max 0 (distanceToDestination p - real n * (dt * velocityProperty p))"
proof (induction n)
  case 0
  show ?case using distance_nonneg [of "positionProperty p" "destinationProperty p"]
    by (simp add: distanceToDestination_def)
next
  case (Suc n)
  have "distanceToDestination (steps (Suc n) dt p) = max 0 (distanceToDestination (steps n dt p) - dt * velocityProperty p)"
    unfolding steps_Suc using assms by (simp add: distanceToDestination_step steps_frame)
  also have "\<dots> = max 0 (distanceToDestination p - real (Suc n) * (dt * velocityProperty p))"
    using assms(2) by (simp add: Suc.IH algebra_simps max_def)
  finally show ?case .
qed

lemma steps_arrive:
  assumes "\<not> userControlledProperty p" and "0 < velocityProperty p" and "0 < dt"
    and "nat \<lceil>distanceToDestination p / (velocityProperty p * dt)\<rceil> \<le> k"
  shows "positionProperty (steps k dt p) = destinationProperty p"
proof -
  let ?s = "dt * velocityProperty p"
  have s: "0 < ?s" using assms by simp
  have "distanceToDestination p / ?s \<le> real_of_int \<lceil>distanceToDestination p / ?s\<rceil>" by (rule le_of_int_ceiling)
  also have "\<dots> \<le> real (nat \<lceil>distanceToDestination p / ?s\<rceil>)" by simp
  also have "\<dots> \<le> real k" using assms(4) by (simp add: mult.commute)
  finally have "distanceToDestination p \<le> real k * ?s" using s by (simp add: field_simps)
  then have "distanceToDestination (steps k dt p) = 0"
    using s by (simp add: distanceToDestination_steps [OF assms(1)])
  then show ?thesis
    by (simp add: distanceToDestination_def distance_zero_iff steps_frame)
qed

lemma distance_on_axis: "distance \<lparr>vx = a, vy = 0\<rparr> \<lparr>vx = b, vy = 0\<rparr> = \<bar>a - b\<bar>"
  by (simp add: distance_def)

lemma exampleParticle_simps:
  "userControlledProperty (exampleParticle d) = False"
  "velocityProperty (exampleParticle d) = 200"
  "positionProperty (exampleParticle d) = \<lparr>vx = 0, vy = 0\<rparr>"
  "destinationProperty (exampleParticle d) = \<lparr>vx = d, vy = 0\<rparr>"
  "distanceToDestination (exampleParticle d) = \<bar>d\<bar>"
  by (simp_all add: exampleParticle_def newParticle_def DEFAULT_PARTICLE_VELOCITY_def ZERO_def
        distanceToDestination_def distance_on_axis)

subsection \<open>The far branch in exact arithmetic\<close>

text \<open>
  The branches of one step, with the values of the far branch computed in exact
  arithmetic. A user-controlled particle is left as it is. Otherwise, with the remaining
  distance from position to destination: if it is above \<open>speed * dt\<close>, the new position
  is the old one plus the polar vector of magnitude \<open>speed * dt\<close> at the angle of the
  bearing; in exact arithmetic that is a displacement of length \<open>\<bar>speed * dt\<bar>\<close> and,
  when the particle is not at its destination, the point \<open>speed * dt\<close> further along the
  straight line to the destination. Else if the distance is above zero the position
  becomes the destination; else nothing changes. In doubles the cosine, the sine and the
  sum of the far branch round, so the program lands near this point, not on it.
\<close>

lemma step_in_exact_arithmetic:
  "(userControlledProperty p \<longrightarrow> step dt p = p) \<and>
   (\<not> userControlledProperty p \<and> distanceToDestination p > velocityProperty p * dt \<longrightarrow>
      step dt p = p\<lparr>positionProperty :=
        plus_vec (positionProperty p)
          (createPolar (velocityProperty p * dt)
             (atan2 (vy (destinationProperty p) - vy (positionProperty p))
                    (vx (destinationProperty p) - vx (positionProperty p))))\<rparr> \<and>
      distance (positionProperty (step dt p)) (positionProperty p) = \<bar>velocityProperty p * dt\<bar> \<and>
      (0 < distanceToDestination p \<longrightarrow>
         vx (positionProperty (step dt p)) =
           vx (positionProperty p) +
           velocityProperty p * dt * (vx (destinationProperty p) - vx (positionProperty p))
             / distanceToDestination p \<and>
         vy (positionProperty (step dt p)) =
           vy (positionProperty p) +
           velocityProperty p * dt * (vy (destinationProperty p) - vy (positionProperty p))
             / distanceToDestination p \<and>
         distanceToDestination (step dt p) = distanceToDestination p - velocityProperty p * dt)) \<and>
   (\<not> userControlledProperty p \<and> \<not> distanceToDestination p > velocityProperty p * dt \<and>
    distanceToDestination p > 0 \<longrightarrow>
      step dt p = p\<lparr>positionProperty := destinationProperty p\<rparr>) \<and>
   (\<not> userControlledProperty p \<and> \<not> distanceToDestination p > velocityProperty p * dt \<and>
    \<not> distanceToDestination p > 0 \<longrightarrow>
      step dt p = p)"
proof (intro conjI impI)
  assume "userControlledProperty p"
  then show "step dt p = p" by (rule step_userControlled)
next
  assume a: "\<not> userControlledProperty p \<and> distanceToDestination p > velocityProperty p * dt"
  then have far: "distance (positionProperty p) (destinationProperty p) > dt * velocityProperty p"
    by (simp add: distanceToDestination_def mult.commute)
  note eq = step_far [OF conjunct1 [OF a] far]
  show "step dt p = p\<lparr>positionProperty :=
        plus_vec (positionProperty p)
          (createPolar (velocityProperty p * dt)
             (atan2 (vy (destinationProperty p) - vy (positionProperty p))
                    (vx (destinationProperty p) - vx (positionProperty p))))\<rparr>"
    by (rule eq)
  show "distance (positionProperty (step dt p)) (positionProperty p) = \<bar>velocityProperty p * dt\<bar>"
    by (simp add: eq distance_plus_createPolar)
  {
    assume pos: "0 < distanceToDestination p"
    then have pos': "0 < distance (positionProperty p) (destinationProperty p)"
      by (simp add: distanceToDestination_def)
    show "vx (positionProperty (step dt p)) =
           vx (positionProperty p) +
           velocityProperty p * dt * (vx (destinationProperty p) - vx (positionProperty p))
             / distanceToDestination p"
      using createPolar_bearing(1) [OF pos', of "velocityProperty p * dt"]
      by (simp add: eq plus_vec_def distanceToDestination_def)
    show "vy (positionProperty (step dt p)) =
           vy (positionProperty p) +
           velocityProperty p * dt * (vy (destinationProperty p) - vy (positionProperty p))
             / distanceToDestination p"
      using createPolar_bearing(2) [OF pos', of "velocityProperty p * dt"]
      by (simp add: eq plus_vec_def distanceToDestination_def)
    have m: "velocityProperty p * dt < distance (positionProperty p) (destinationProperty p)"
      using far by (simp add: mult.commute)
    show "distanceToDestination (step dt p) = distanceToDestination p - velocityProperty p * dt"
      using distance_after_polar [OF m pos']
      by (simp add: eq distanceToDestination_def)
  }
next
  assume "\<not> userControlledProperty p \<and> \<not> distanceToDestination p > velocityProperty p * dt \<and>
    distanceToDestination p > 0"
  then show "step dt p = p\<lparr>positionProperty := destinationProperty p\<rparr>"
    by (simp add: distanceToDestination_def mult.commute step_near)
next
  assume "\<not> userControlledProperty p \<and> \<not> distanceToDestination p > velocityProperty p * dt \<and>
    \<not> distanceToDestination p > 0"
  then show "step dt p = p"
    by (simp add: distanceToDestination_def mult.commute step_arrived)
qed

text \<open>
  Repeated steps in exact arithmetic, for a particle that is not user-controlled, with
  speed and \<open>dt\<close> above zero: after \<open>k\<close> steps the remaining distance is the initial
  one minus \<open>k * speed * dt\<close>, cut off at zero, so it never increases; from step number
  \<open>\<lceil>initialDistance / (speed * dt)\<rceil>\<close> on the position is the destination; and a step on
  a particle at distance zero changes nothing. The count and the monotonicity are those of
  the algorithm without rounding. In doubles the accumulated position can fall short of
  the destination by a rounding error when the count is reached, and a step smaller than
  half a unit in the last place of the position leaves the position where it was.
\<close>

lemma steps_in_exact_arithmetic:
  assumes "\<not> userControlledProperty p" and "0 < velocityProperty p" and "0 < dt"
  shows "(\<forall>k. distanceToDestination (steps k dt p)
               = max 0 (distanceToDestination p - real k * (velocityProperty p * dt))) \<and>
         (\<forall>k. distanceToDestination (steps (Suc k) dt p) \<le> distanceToDestination (steps k dt p)) \<and>
         (\<forall>k. nat \<lceil>distanceToDestination p / (velocityProperty p * dt)\<rceil> \<le> k \<longrightarrow>
              positionProperty (steps k dt p) = destinationProperty p) \<and>
         (distanceToDestination p = 0 \<longrightarrow> step dt p = p)"
proof -
  have s: "0 \<le> dt * velocityProperty p" "0 < dt * velocityProperty p" using assms by simp_all
  have formula: "distanceToDestination (steps k dt p)
               = max 0 (distanceToDestination p - real k * (velocityProperty p * dt))" for k
    using distanceToDestination_steps [OF assms(1) s(1), of k] by (simp add: mult.commute)
  have mono: "distanceToDestination (steps (Suc k) dt p) \<le> distanceToDestination (steps k dt p)" for k
  proof -
    have "real (Suc k) * (velocityProperty p * dt) \<ge> real k * (velocityProperty p * dt)"
      using s(1) by (simp add: algebra_simps)
    then show ?thesis unfolding formula by (simp add: max_def)
  qed
  have arrive: "positionProperty (steps k dt p) = destinationProperty p"
    if "nat \<lceil>distanceToDestination p / (velocityProperty p * dt)\<rceil> \<le> k" for k
    using steps_arrive [OF assms that] .
  have idem: "step dt p = p" if "distanceToDestination p = 0"
    using that s(1) by (simp add: step_arrived distanceToDestination_def)
  show ?thesis using formula mono arrive idem by blast
qed

subsection \<open>Placing a particle, and the frame of a step\<close>

text \<open>
  C6, as the code has it. With assertions enabled, \<^verbatim>\<open>setPositionAndDestination\<close> on a
  value that is not a \<^verbatim>\<open>Vector2\<close> fails with the assertion error; with assertions
  disabled it returns normally and leaves the particle as it was. On a \<^verbatim>\<open>Vector2\<close> it
  sets destination and position to that point, and a step that follows with
  \<open>dt * velocity \<ge> 0\<close> leaves the particle there.
\<close>

theorem setPositionAndDestination_contract:
  "setPositionAndDestination True NotVector2 p
     = Inl (AssertionFailed ''Attempt to set non-vector position.'') \<and>
   setPositionAndDestination False NotVector2 p = Inr p \<and>
   setPositionAndDestination assertEnabled (IsVector2 v) p
     = Inr (p\<lparr>destinationProperty := v, positionProperty := v\<rparr>) \<and>
   (0 \<le> dt * velocityProperty p \<longrightarrow>
      step dt (p\<lparr>destinationProperty := v, positionProperty := v\<rparr>)
        = p\<lparr>destinationProperty := v, positionProperty := v\<rparr>)"
proof -
  have "step dt (p\<lparr>destinationProperty := v, positionProperty := v\<rparr>)
        = p\<lparr>destinationProperty := v, positionProperty := v\<rparr>"
    if "0 \<le> dt * velocityProperty p"
  proof -
    have "distance v v = 0" by (simp add: distance_def)
    then show ?thesis using that by (simp add: step_def Let_def)
  qed
  then show ?thesis
    by (simp add: setPositionAndDestination_def moveImmediatelyToDestination_def)
qed

theorem setPositionAndDestination_contract_witness:
  "(0::real) \<le> 1 * velocityProperty (exampleParticle 500) \<and>
   setPositionAndDestination True (IsVector2 \<lparr>vx = 3, vy = 4\<rparr>) (exampleParticle 500)
     = Inr ((exampleParticle 500)\<lparr>destinationProperty := \<lparr>vx = 3, vy = 4\<rparr>,
                                 positionProperty := \<lparr>vx = 3, vy = 4\<rparr>\<rparr>) \<and>
   positionProperty (step 1 ((exampleParticle 500)\<lparr>destinationProperty := \<lparr>vx = 3, vy = 4\<rparr>,
                                 positionProperty := \<lparr>vx = 3, vy = 4\<rparr>\<rparr>)) = \<lparr>vx = 3, vy = 4\<rparr>"
  using setPositionAndDestination_contract [of "exampleParticle 500" True "\<lparr>vx = 3, vy = 4\<rparr>" 1]
  by (simp add: exampleParticle_def newParticle_def DEFAULT_PARTICLE_VELOCITY_def)

text \<open>
  The claim C6 as stated fails where assertions are disabled: the call with a value that
  is not a \<^verbatim>\<open>Vector2\<close> reports no error. And a step with a negative \<open>dt\<close> moves a
  particle that has just been placed: the distance zero is above \<open>dt * velocity\<close>, and the
  step of that negative length is taken at the angle \<^verbatim>\<open>Math.atan2(0, 0)\<close>, which is zero.
\<close>

theorem setPositionAndDestination_silent_counterexample:
  "setPositionAndDestination False NotVector2 (exampleParticle 500) = Inr (exampleParticle 500) \<and>
   setPositionAndDestination False (IsVector2 \<lparr>vx = 3, vy = 4\<rparr>) (exampleParticle 500)
     = Inr ((exampleParticle 500)\<lparr>destinationProperty := \<lparr>vx = 3, vy = 4\<rparr>,
                                 positionProperty := \<lparr>vx = 3, vy = 4\<rparr>\<rparr>) \<and>
   positionProperty (step (- 1) ((exampleParticle 500)\<lparr>destinationProperty := \<lparr>vx = 3, vy = 4\<rparr>,
                                 positionProperty := \<lparr>vx = 3, vy = 4\<rparr>\<rparr>))
     = \<lparr>vx = - 197, vy = 4\<rparr>"
  by (simp add: setPositionAndDestination_def moveImmediatelyToDestination_def step_def Let_def
        distance_def atan2_def createPolar_def plus_vec_def exampleParticle_simps)

text \<open>
  C10. For every particle and every \<open>dt\<close>, a step writes at most the position: the
  particle after the step is the particle before it with a new position, and the
  destination, the velocity, the user-controlled flag, the radius, the layer and the type
  are the ones it had.
\<close>

theorem step_writes_position_only:
  "step dt p = p\<lparr>positionProperty := positionProperty (step dt p)\<rparr> \<and>
   destinationProperty (step dt p) = destinationProperty p \<and>
   velocityProperty (step dt p) = velocityProperty p \<and>
   userControlledProperty (step dt p) = userControlledProperty p \<and>
   radiusProperty (step dt p) = radiusProperty p \<and>
   zLayerProperty (step dt p) = zLayerProperty p \<and>
   type (step dt p) = type p"
  by (simp add: step_def moveImmediatelyToDestination_def Let_def)

section \<open>Properties of the keyboard placement\<close>

subsection \<open>Rings, indices and sequences\<close>

lemma ringOf_simps [simp]:
  "ringOf InnerRing w = innerRing w" "ringOf OuterRing w = outerRing w"
  by (simp_all add: ringOf_def)

lemma setRing_simps [simp]:
  "setRing InnerRing ring w = w\<lparr>innerRing := ring\<rparr>" "setRing OuterRing ring w = w\<lparr>outerRing := ring\<rparr>"
  by (simp_all add: setRing_def)

lemma ringOf_setRing [simp]: "ringOf r (setRing r ring w) = ring"
  by (cases r) simp_all

lemma ringOf_updateParticle [simp]: "ringOf r (updateParticle p f w) = ringOf r w"
  by (cases r) (simp_all add: updateParticle_def)

lemma ringOf_focus_update [simp]: "ringOf r (w\<lparr>focus := x\<rparr>) = ringOf r w"
  by (cases r) simp_all

lemma length_updateNode [simp]: "length (updateNode k f nodes) = length nodes"
  by (simp add: updateNode_def)

lemma js_rem_nonneg: "0 \<le> a \<Longrightarrow> 0 < n \<Longrightarrow> js_rem a n = Some (a mod n)"
  by (cases "a = 0") (simp_all add: js_rem_def)

text \<open>The two index updates of the listeners, on an index inside the list.\<close>

lemma increment_mod:
  fixes i n :: int
  assumes "0 \<le> i" and "i < n"
  shows "js_rem (i + 1) n = Some ((i + 1) mod n)"
  using assms by (simp add: js_rem_nonneg)

lemma decrement_mod:
  fixes i n :: int
  assumes "0 \<le> i" and "i < n"
  shows "(if i - 1 < 0 then n - 1 else i - 1) = (i - 1) mod n"
proof (cases "i = 0")
  case True
  then have "(i - 1) mod n = (- 1) mod n" by simp
  also have "\<dots> = n - 1" using assms True by (simp add: zmod_minus1)
  finally show ?thesis using True by simp
next
  case False
  then have "0 \<le> i - 1" "i - 1 < n" using assms by simp_all
  then show ?thesis by simp
qed

lemma at_index_Some: "0 \<le> i \<Longrightarrow> i < int (length xs) \<Longrightarrow> at_index xs i = Some (xs ! nat i)"
  by (simp add: at_index_def)

lemma keydown_view_arrow:
  assumes "selectingShellNucleusOptions w" and "currentlyDraggedParticle w = Some particle"
    and "0 \<le> currentOptionIndex w" and "currentOptionIndex w < 3"
    and "isDownRight keyCode \<or> isUpLeft keyCode"
  shows "\<exists>w'. keydown_view keyCode w = Inr w' \<and>
              selectingShellNucleusOptions w' \<and> currentlyDraggedParticle w' = Some particle \<and>
              currentOptionIndex w' = (currentOptionIndex w + (if isDownRight keyCode then 1 else - 1)) mod 3"
proof -
  define j where "j = (currentOptionIndex w + (if isDownRight keyCode then 1 else - 1)) mod 3"
  have len: "int (length shellNucluesOptions) = 3" by (simp add: shellNucluesOptions_def)
  have new: "(if isDownRight keyCode
              then js_rem (currentOptionIndex w + 1) (int (length shellNucluesOptions))
              else Some (if currentOptionIndex w - 1 < 0
                         then int (length shellNucluesOptions) - 1
                         else currentOptionIndex w - 1)) = Some j"
    unfolding len j_def
    using increment_mod [OF assms(3,4)] decrement_mod [OF assms(3,4)] by simp
  have range: "0 \<le> j" "j < 3" by (simp_all add: j_def)
  then have at: "at_index shellNucluesOptions j = Some (shellNucluesOptions ! nat j)"
    by (simp add: at_index_Some len)
  show ?thesis
    unfolding keydown_view_def new j_def [symmetric]
    using assms(1,2,5) by (simp add: at updateParticle_def)
qed

lemma run_replicate:
  assumes step: "\<And>w. I w \<Longrightarrow> \<exists>w'. dispatch e w = Inr w' \<and> I w' \<and> f w' = g (f w)"
    and "I w"
  shows "\<exists>w'. run (replicate n e) w = Inr w' \<and> I w' \<and> f w' = (g ^^ n) (f w)"
  using assms(2)
proof (induction n arbitrary: w)
  case 0
  then show ?case by simp
next
  case (Suc n)
  from step [OF Suc.prems] obtain w1 where w1: "dispatch e w = Inr w1" "I w1" "f w1 = g (f w)"
    by blast
  from Suc.IH [OF w1(2)] obtain w' where w': "run (replicate n e) w1 = Inr w'" "I w'"
      "f w' = (g ^^ n) (f w1)" by blast
  show ?case using w1 w' by (simp add: funpow_swap1)
qed

lemma funpow_add_mod:
  fixes i :: int
  assumes "0 < n"
  shows "((\<lambda>i. (i + d) mod n) ^^ k) i = (if k = 0 then i else (i + int k * d) mod n)"
proof (induction k)
  case 0
  then show ?case by simp
next
  case (Suc k)
  show ?case
  proof (cases "k = 0")
    case True
    then show ?thesis by simp
  next
    case False
    have "((i + int k * d) mod n + d) mod n = (i + int k * d + d) mod n"
      by (simp add: mod_add_left_eq)
    also have "i + int k * d + d = i + int (Suc k) * d" by (simp add: algebra_simps)
    finally show ?thesis using False Suc.IH by simp
  qed
qed

lemma full_cycle:
  assumes "0 \<le> i" and "i < int n"
  shows "((\<lambda>i. (i + d) mod int n) ^^ n) i = i"
proof -
  have n: "0 < n" using assms by linarith
  then have "((\<lambda>i. (i + d) mod int n) ^^ n) i = (i + int n * d) mod int n"
    by (simp add: funpow_add_mod)
  also have "\<dots> = i" using assms by simp
  finally show ?thesis .
qed

lemma keydown_ring_arrow_eq:
  assumes "choosing r particle bucketFront w"
    and "0 \<le> currentOptionIndex_ring (ringOf r w)"
    and "currentOptionIndex_ring (ringOf r w) < int (length (electronPlacementNodes (ringOf r w)))"
    and "isDownRight keyCode \<or> isUpLeft keyCode"
  shows "\<exists>j k. 0 \<le> j \<and> j < int (length (electronPlacementNodes (ringOf r w))) \<and>
     j = (currentOptionIndex_ring (ringOf r w) + (if isUpLeft keyCode then 1 else - 1))
           mod int (length (electronPlacementNodes (ringOf r w))) \<and>
     keydown_ring r keyCode w =
     Inr (setRing r
            ((ringOf r w)\<lparr>currentOptionIndex_ring := j,
                  electronPlacementNodes :=
                    updateNode (nat j) (\<lambda>n. n\<lparr>visible := False\<rparr>)
                      (updateNode k (\<lambda>n. n\<lparr>visible := True\<rparr>) (electronPlacementNodes (ringOf r w))),
                  previouslyFocusedElectron := Some (nat j)\<rparr>)
            (updateParticle particle
               (\<lambda>p. p\<lparr>destinationProperty := times_vec (electronShellPositions (ringOf r w) ! nat j) 1.05\<rparr>)
               (w\<lparr>focus := Some (PlacementNode r (nat j))\<rparr>)))"
proof -
  define ring where "ring = ringOf r w"
  define n where "n = int (length (electronPlacementNodes ring))"
  define j where "j = (currentOptionIndex_ring ring + (if isUpLeft keyCode then 1 else - 1)) mod n"
  have c: "choosingElectronPlacement ring" "activeParticle ring = Some particle"
      "activeBucketFront ring = Some bucketFront"
      "length (electronShellPositions ring) = length (electronPlacementNodes ring)"
    using assms(1) by (simp_all add: choosing_def ring_def)
  obtain k where k: "previouslyFocusedElectron ring = Some k"
    using assms(1) by (auto simp: choosing_def ring_def)
  have i: "0 \<le> currentOptionIndex_ring ring" "currentOptionIndex_ring ring < n"
    using assms(2,3) by (simp_all add: ring_def n_def)
  have new: "(if isUpLeft keyCode
              then js_rem (currentOptionIndex_ring ring + 1) (int (length (electronPlacementNodes ring)))
              else Some (if currentOptionIndex_ring ring - 1 < 0
                         then int (length (electronPlacementNodes ring)) - 1
                         else currentOptionIndex_ring ring - 1)) = Some j"
    unfolding n_def [symmetric] j_def
    using increment_mod [OF i] decrement_mod [OF i] by simp
  have npos: "0 < n" using i by linarith
  have range: "0 \<le> j" "j < n" using npos by (simp_all add: j_def)
  have at1: "at_index (electronPlacementNodes ring) j = Some (electronPlacementNodes ring ! nat j)"
    using range by (simp add: at_index_Some n_def)
  have at2: "at_index (electronShellPositions ring) j = Some (electronShellPositions ring ! nat j)"
    using range c(4) by (simp add: at_index_Some n_def)
  have "keydown_ring r keyCode w =
     Inr (setRing r
            (ring\<lparr>currentOptionIndex_ring := j,
                  electronPlacementNodes :=
                    updateNode (nat j) (\<lambda>n. n\<lparr>visible := False\<rparr>)
                      (updateNode k (\<lambda>n. n\<lparr>visible := True\<rparr>) (electronPlacementNodes ring)),
                  previouslyFocusedElectron := Some (nat j)\<rparr>)
            (updateParticle particle
               (\<lambda>p. p\<lparr>destinationProperty := times_vec (electronShellPositions ring ! nat j) 1.05\<rparr>)
               (w\<lparr>focus := Some (PlacementNode r (nat j))\<rparr>)))"
    unfolding keydown_ring_def ring_def [symmetric] Let_def new
    using c(1-3) assms(4) by (simp add: k at1 at2)
  with range show ?thesis
    unfolding ring_def [symmetric] n_def [symmetric] j_def [symmetric] by blast
qed

lemma keydown_ring_arrow:
  assumes "choosing r particle bucketFront w"
    and "0 \<le> currentOptionIndex_ring (ringOf r w)"
    and "currentOptionIndex_ring (ringOf r w) < int (length (electronPlacementNodes (ringOf r w)))"
    and "isDownRight keyCode \<or> isUpLeft keyCode"
  shows "\<exists>w'. keydown_ring r keyCode w = Inr w' \<and> choosing r particle bucketFront w' \<and>
              length (electronPlacementNodes (ringOf r w')) = length (electronPlacementNodes (ringOf r w)) \<and>
              currentOptionIndex_ring (ringOf r w') =
                (currentOptionIndex_ring (ringOf r w) + (if isUpLeft keyCode then 1 else - 1))
                  mod int (length (electronPlacementNodes (ringOf r w)))"
proof -
  from keydown_ring_arrow_eq [OF assms] obtain j k where
    j: "j = (currentOptionIndex_ring (ringOf r w) + (if isUpLeft keyCode then 1 else - 1))
           mod int (length (electronPlacementNodes (ringOf r w)))"
    and eq: "keydown_ring r keyCode w =
     Inr (setRing r
            ((ringOf r w)\<lparr>currentOptionIndex_ring := j,
                  electronPlacementNodes :=
                    updateNode (nat j) (\<lambda>n. n\<lparr>visible := False\<rparr>)
                      (updateNode k (\<lambda>n. n\<lparr>visible := True\<rparr>) (electronPlacementNodes (ringOf r w))),
                  previouslyFocusedElectron := Some (nat j)\<rparr>)
            (updateParticle particle
               (\<lambda>p. p\<lparr>destinationProperty := times_vec (electronShellPositions (ringOf r w) ! nat j) 1.05\<rparr>)
               (w\<lparr>focus := Some (PlacementNode r (nat j))\<rparr>)))"
    by blast
  show ?thesis
    unfolding eq using assms(1) j by (simp add: choosing_def)
qed

lemma not_arrow_if_place: "isPlaceOrEnd keyCode \<Longrightarrow> \<not> isDownRight keyCode \<and> \<not> isUpLeft keyCode"
  by (auto simp: isPlaceOrEnd_def isDownRight_def isUpLeft_def)

lemma exampleView_fields:
  "selectingShellNucleusOptions exampleView = False"
  "currentlyDraggedParticle exampleView = None"
  "currentlySelectedBucketFront exampleView = None"
  "currentOptionIndex exampleView = 0"
  "previouslyFocusedNode exampleView = CenterOption"
  "particleCount exampleView = 0"
  "timeouts exampleView = []"
  "addParticleFirstOpenCalls exampleView = []"
  "focus exampleView = None"
  "particles exampleView = exampleStore"
  by (simp_all add: exampleView_def newElectronShellView_def)

lemma exampleView_rings:
  "innerRing exampleView = newElectronRingNode [\<lparr>vx = 34, vy = 0\<rparr>, \<lparr>vx = -34, vy = 0\<rparr>]"
  "outerRing exampleView = newElectronRingNode
     [\<lparr>vx = 102, vy = 0\<rparr>, \<lparr>vx = 72, vy = 72\<rparr>, \<lparr>vx = 0, vy = 102\<rparr>, \<lparr>vx = -72, vy = 72\<rparr>,
      \<lparr>vx = -102, vy = 0\<rparr>, \<lparr>vx = -72, vy = -72\<rparr>, \<lparr>vx = 0, vy = -102\<rparr>, \<lparr>vx = 72, vy = -72\<rparr>]"
  by (simp_all add: exampleView_def newElectronShellView_def examplePositions_def)

lemma run_append:
  "run (es @ es') w = (case run es w of Inl err \<Rightarrow> Inl err | Inr w' \<Rightarrow> run es' w')"
  by (induction es arbitrary: w) (simp_all split: sum.splits)

text \<open>The example atom after a selection has been started and the outer ring entered.\<close>

lemma example_outer_ring_entered:
  "\<exists>w. run [AccessibleSelect 1 10, KeydownView KEY_DOWN_ARROW, KeydownView KEY_DOWN_ARROW,
             KeydownView KEY_ENTER] exampleView = Inr w \<and>
       choosing OuterRing 1 10 w \<and>
       currentOptionIndex_ring (outerRing w) = 0 \<and>
       length (electronPlacementNodes (outerRing w)) = 8 \<and>
       map visible (electronPlacementNodes (outerRing w))
         = [False, True, True, True, True, True, True, True] \<and>
       map focusable (electronPlacementNodes (outerRing w))
         = [True, True, True, True, True, True, True, True] \<and>
       currentOptionIndex w = 2 \<and> \<not> selectingShellNucleusOptions w \<and>
       previouslyFocusedNode w = RingOption OuterRing \<and>
       currentlyDraggedParticle w = Some 1 \<and> currentlySelectedBucketFront w = Some 10 \<and>
       particleCount w = 0 \<and> timeouts w = [] \<and> addParticleFirstOpenCalls w = []"
  by (simp add: accessibleSelect_def keydown_view_def isDownRight_def isUpLeft_def isPlaceOrEnd_def
        js_rem_def at_index_def shellNucluesOptions_def updateParticle_def updateNode_def
        chooseElectron_def choosing_def exampleView_fields exampleView_rings
        newElectronRingNode_def Let_def)

lemma idle_exampleView: "idle exampleView"
  by (simp add: idle_def exampleView_fields exampleView_rings newElectronRingNode_def)

lemma after_escape:
  "run [AccessibleSelect 1 10, KeydownView KEY_ESCAPE] exampleView =
     Inr ((accessibleSelect 1 10 exampleView)
          \<lparr>addParticleFirstOpenCalls := [(10, 1, True)],
           particles := exampleStore(1 := (exampleStore 1)\<lparr>userControlledProperty := False,
                                                          isAccessibleControlled := Some False\<rparr>),
           focusable_view := Some False,
           currentlyDraggedParticle := None,
           timeouts := [RefocusFromView]\<rparr>)"
  by (simp add: accessibleSelect_def keydown_view_def isDownRight_def isUpLeft_def isPlaceOrEnd_def
        updateParticle_def exampleView_fields Let_def)

lemma keydown_view_terminal:
  assumes "selectingShellNucleusOptions w" and "currentlyDraggedParticle w = Some particle"
    and "currentlySelectedBucketFront w = Some bucketFront" and "isPlaceOrEnd keyCode"
    and "currentOptionIndex w = 0 \<or> keyCode = KEY_TAB \<or> keyCode = KEY_ESCAPE"
  shows "keydown_view keyCode w =
     Inr (w\<lparr>addParticleFirstOpenCalls :=
              (if keyCode = KEY_TAB \<or> keyCode = KEY_ESCAPE
               then addParticleFirstOpenCalls w @ [(bucketFront, particle, True)]
               else addParticleFirstOpenCalls w),
            particles := (particles w)(particle := (particles w particle)
               \<lparr>userControlledProperty := False, isAccessibleControlled := Some False\<rparr>),
            focusable_view := (if particleCount w = 0 then Some False else focusable_view w),
            currentlyDraggedParticle := None,
            timeouts := (if keyCode = KEY_TAB then timeouts w else timeouts w @ [RefocusFromView]),
            currentlySelectedBucketFront := (if keyCode = KEY_TAB then None else Some bucketFront)\<rparr>)"
  using assms not_arrow_if_place [OF assms(4)]
  by (auto simp: keydown_view_def updateParticle_def Let_def)

lemma keydown_ring_terminal:
  assumes "choosingElectronPlacement (ringOf r w)" and "activeParticle (ringOf r w) = Some particle"
    and "activeBucketFront (ringOf r w) = Some bucketFront" and "isPlaceOrEnd keyCode"
  shows "keydown_ring r keyCode w =
     Inr (setRing r
            ((ringOf r w)\<lparr>choosingElectronPlaement := Some False,
                  electronPlacementNodes :=
                    map (\<lambda>childCircle. childCircle\<lparr>focusable := False,
                                                    accessibleHidden := Some True,
                                                    visible := False\<rparr>)
                        (electronPlacementNodes (ringOf r w)),
                  activeParticle := None,
                  activeBucketFront := (if keyCode = KEY_TAB then None else Some bucketFront)\<rparr>)
            (w\<lparr>addParticleFirstOpenCalls :=
                 (if keyCode = KEY_TAB \<or> keyCode = KEY_ESCAPE
                  then addParticleFirstOpenCalls w @ [(bucketFront, particle, True)]
                  else addParticleFirstOpenCalls w),
               particles := (particles w)(particle := (particles w particle)
                  \<lparr>userControlledProperty := False, isAccessibleControlled := Some False\<rparr>),
               timeouts := (if keyCode = KEY_TAB then timeouts w
                            else timeouts w @ [RefocusFromRing r])\<rparr>))"
  using assms not_arrow_if_place [OF assms(4)]
  by (cases r) (auto simp: keydown_ring_def updateParticle_def Let_def)

subsection \<open>The indices stay inside\<close>

lemma ringInv_new: "ringInv (newElectronRingNode positions)"
  by (simp add: ringInv_def newElectronRingNode_def)

lemma indicesInRange_new:
  "indicesInRange (newElectronShellView store positions ri ro rn count focused)"
  by (simp add: indicesInRange_def newElectronShellView_def ringInv_new)

lemma at_index_range: "at_index xs i = Some x \<Longrightarrow> 0 \<le> i \<and> i < int (length xs)"
  by (simp add: at_index_def split: if_splits)

lemma chooseElectron_inv:
  assumes "indicesInRange w" and "chooseElectron r particle bucketFront w = Inr w'"
  shows "indicesInRange w'"
proof -
  define ring where "ring = ringOf r w"
  from assms(2) obtain position k where
    pos: "at_index (electronShellPositions ring) (currentOptionIndex_ring ring) = Some position"
    and k: "previouslyFocusedElectron ring = Some k"
    by (auto simp: chooseElectron_def Let_def ring_def split: option.splits)
  have rng: "currentOptionIndex_ring ring < int (length (electronShellPositions ring))"
    using at_index_range [OF pos] by simp
  have inv: "ringInv ring" "0 \<le> currentOptionIndex w" "currentOptionIndex w < 3"
    using assms(1) by (cases r; simp add: indicesInRange_def ring_def)+
  define ring' where "ring' = ring\<lparr>activeParticle := Some particle,
        activeBucketFront := Some bucketFront, choosingElectronPlacement := True,
        electronPlacementNodes := updateNode k (\<lambda>n. n\<lparr>visible := False\<rparr>)
          (map (\<lambda>childCircle. childCircle\<lparr>focusable := True, accessibleHidden := Some False,
                                            visible := True\<rparr>) (electronPlacementNodes ring))\<rparr>"
  have w': "w' = setRing r ring' (updateParticle particle
              (\<lambda>p. p\<lparr>destinationProperty := times_vec position 1.05\<rparr>)
              (w\<lparr>focus := Some (PlacementNode r k)\<rparr>))"
    using assms(2) by (simp add: chooseElectron_def Let_def ring_def [symmetric] pos k ring'_def)
  have "ringInv ring'"
    using inv(1) rng by (simp add: ringInv_def ring'_def k)
  then show ?thesis
    using assms(1) inv unfolding w'
    by (cases r) (simp_all add: indicesInRange_def updateParticle_def)
qed

lemma keydown_view_inv:
  assumes "indicesInRange w" and "keydown_view keyCode w = Inr w'"
  shows "indicesInRange w'"
proof (cases "selectingShellNucleusOptions w")
  case False
  with assms show ?thesis by (simp add: keydown_view_def)
next
  case sel: True
  show ?thesis
  proof (cases "isDownRight keyCode \<or> isUpLeft keyCode")
    case True
    with sel assms(2) obtain i node where
      "at_index shellNucluesOptions i = Some node" "currentOptionIndex w' = i"
      "innerRing w' = innerRing w" "outerRing w' = outerRing w"
      by (auto simp: keydown_view_def updateParticle_def split: option.splits if_splits)
    then show ?thesis
      using assms(1) at_index_range [of shellNucluesOptions i node]
      by (simp add: indicesInRange_def shellNucluesOptions_def)
  next
    case False
    show ?thesis
    proof (cases "isPlaceOrEnd keyCode \<and> currentlyDraggedParticle w \<noteq> None \<and>
                  currentlySelectedBucketFront w \<noteq> None")
      case False
      with sel \<open>\<not> (isDownRight keyCode \<or> isUpLeft keyCode)\<close> assms show ?thesis
        by (auto simp: keydown_view_def split: option.splits)
    next
      case True
      then obtain p b where pb: "currentlyDraggedParticle w = Some p"
        "currentlySelectedBucketFront w = Some b" by auto
      show ?thesis
      proof (cases "currentOptionIndex w = 0 \<or> keyCode = KEY_TAB \<or> keyCode = KEY_ESCAPE")
        case True
        with sel \<open>\<not> (isDownRight keyCode \<or> isUpLeft keyCode)\<close> \<open>isPlaceOrEnd keyCode \<and> _\<close> pb assms
        show ?thesis
          by (auto simp: keydown_view_def indicesInRange_def updateParticle_def Let_def
              split: if_splits)
      next
        case False
        with sel \<open>\<not> (isDownRight keyCode \<or> isUpLeft keyCode)\<close> \<open>isPlaceOrEnd keyCode \<and> _\<close> pb assms(2)
        obtain r where "chooseElectron r p b (w\<lparr>selectingShellNucleusOptions := False\<rparr>) = Inr w'"
          by (auto simp: keydown_view_def split: option.splits shellOption.splits)
        moreover have "indicesInRange (w\<lparr>selectingShellNucleusOptions := False\<rparr>)"
          using assms(1) by (simp add: indicesInRange_def)
        ultimately show ?thesis by (rule chooseElectron_inv [rotated])
      qed
    qed
  qed
qed

lemma ringInv_world:
  "indicesInRange w \<Longrightarrow> ringInv (ringOf r w)"
  by (cases r) (simp_all add: indicesInRange_def)

lemma indicesInRange_setRing:
  assumes "indicesInRange w" and "ringInv ring"
  shows "indicesInRange (setRing r ring w)"
  using assms by (cases r) (simp_all add: indicesInRange_def)

lemma indicesInRange_frame:
  assumes "indicesInRange w"
  shows "indicesInRange (updateParticle p f w)"
    and "indicesInRange (w\<lparr>focus := x\<rparr>)"
    and "indicesInRange (w\<lparr>timeouts := ts\<rparr>)"
    and "indicesInRange (w\<lparr>addParticleFirstOpenCalls := cs\<rparr>)"
  using assms by (simp_all add: indicesInRange_def updateParticle_def)


lemma keydown_ring_inactive:
  assumes "\<not> (choosingElectronPlacement (ringOf r w) \<and> activeParticle (ringOf r w) \<noteq> None \<and>
              activeBucketFront (ringOf r w) \<noteq> None)"
  shows "keydown_ring r keyCode w = Inr w"
proof -
  consider "\<not> choosingElectronPlacement (ringOf r w)" | "activeParticle (ringOf r w) = None"
    | "activeBucketFront (ringOf r w) = None" using assms by blast
  then show ?thesis
  proof cases
    case 1
    then show ?thesis by (simp add: keydown_ring_def Let_def)
  next
    case 2
    then show ?thesis by (simp add: keydown_ring_def Let_def split: bool.splits)
  next
    case 3
    then show ?thesis by (simp add: keydown_ring_def Let_def split: bool.splits option.splits)
  qed
qed

lemma keydown_ring_other:
  assumes "\<not> (isDownRight keyCode \<or> isUpLeft keyCode)" and "\<not> isPlaceOrEnd keyCode"
  shows "keydown_ring r keyCode w = Inr w"
  using assms by (simp add: keydown_ring_def Let_def split: bool.splits option.splits)

lemma keydown_ring_inv:
  assumes "indicesInRange w" and "keydown_ring r keyCode w = Inr w'"
  shows "indicesInRange w'"
proof -
  define ring where "ring = ringOf r w"
  have inv: "ringInv ring" using assms(1) by (simp add: ring_def ringInv_world)
  show ?thesis
  proof (cases "choosingElectronPlacement ring \<and> activeParticle ring \<noteq> None \<and>
                activeBucketFront ring \<noteq> None")
    case False
    then have "keydown_ring r keyCode w = Inr w"
      unfolding ring_def by (rule keydown_ring_inactive)
    with assms show ?thesis by simp
  next
    case True
    then obtain p b where act: "choosingElectronPlacement ring" "activeParticle ring = Some p"
      "activeBucketFront ring = Some b" by auto
    consider (arrow) "isDownRight keyCode \<or> isUpLeft keyCode"
      | (place) "isPlaceOrEnd keyCode"
      | (other) "\<not> (isDownRight keyCode \<or> isUpLeft keyCode)" "\<not> isPlaceOrEnd keyCode"
      by blast
    then show ?thesis
    proof cases
      case arrow
      have ch: "choosing r p b w" and rng: "0 \<le> currentOptionIndex_ring (ringOf r w)"
        "currentOptionIndex_ring (ringOf r w) < int (length (electronPlacementNodes (ringOf r w)))"
        using inv act by (auto simp: choosing_def ringInv_def ring_def)
      from keydown_ring_arrow_eq [OF ch rng arrow] obtain j k where
        j: "0 \<le> j" "j < int (length (electronPlacementNodes ring))"
        and eq: "keydown_ring r keyCode w = Inr (setRing r
            (ring\<lparr>currentOptionIndex_ring := j,
                  electronPlacementNodes :=
                    updateNode (nat j) (\<lambda>n. n\<lparr>visible := False\<rparr>)
                      (updateNode k (\<lambda>n. n\<lparr>visible := True\<rparr>) (electronPlacementNodes ring)),
                  previouslyFocusedElectron := Some (nat j)\<rparr>)
            (updateParticle p
               (\<lambda>q. q\<lparr>destinationProperty := times_vec (electronShellPositions ring ! nat j) 1.05\<rparr>)
               (w\<lparr>focus := Some (PlacementNode r (nat j))\<rparr>)))"
        unfolding ring_def [symmetric] by blast
      have "ringInv (ring\<lparr>currentOptionIndex_ring := j,
                  electronPlacementNodes :=
                    updateNode (nat j) (\<lambda>n. n\<lparr>visible := False\<rparr>)
                      (updateNode k (\<lambda>n. n\<lparr>visible := True\<rparr>) (electronPlacementNodes ring)),
                  previouslyFocusedElectron := Some (nat j)\<rparr>)"
        using inv j by (simp add: ringInv_def)
      then have "indicesInRange (setRing r
            (ring\<lparr>currentOptionIndex_ring := j,
                  electronPlacementNodes :=
                    updateNode (nat j) (\<lambda>n. n\<lparr>visible := False\<rparr>)
                      (updateNode k (\<lambda>n. n\<lparr>visible := True\<rparr>) (electronPlacementNodes ring)),
                  previouslyFocusedElectron := Some (nat j)\<rparr>)
            (updateParticle p
               (\<lambda>q. q\<lparr>destinationProperty := times_vec (electronShellPositions ring ! nat j) 1.05\<rparr>)
               (w\<lparr>focus := Some (PlacementNode r (nat j))\<rparr>)))"
        using assms(1) by (intro indicesInRange_setRing indicesInRange_frame)
      with assms(2) eq show ?thesis by simp
    next
      case place
      have act': "choosingElectronPlacement (ringOf r w)" "activeParticle (ringOf r w) = Some p"
        "activeBucketFront (ringOf r w) = Some b" using act by (simp_all add: ring_def)
      define ring1 where "ring1 = ring\<lparr>choosingElectronPlaement := Some False,
                  electronPlacementNodes :=
                    map (\<lambda>childCircle. childCircle\<lparr>focusable := False,
                                                    accessibleHidden := Some True,
                                                    visible := False\<rparr>)
                        (electronPlacementNodes ring),
                  activeParticle := None,
                  activeBucketFront := (if keyCode = KEY_TAB then None else Some b)\<rparr>"
      define w0 where "w0 = w\<lparr>addParticleFirstOpenCalls :=
                 (if keyCode = KEY_TAB \<or> keyCode = KEY_ESCAPE
                  then addParticleFirstOpenCalls w @ [(b, p, True)]
                  else addParticleFirstOpenCalls w),
               particles := (particles w)(p := (particles w p)
                  \<lparr>userControlledProperty := False, isAccessibleControlled := Some False\<rparr>),
               timeouts := (if keyCode = KEY_TAB then timeouts w
                            else timeouts w @ [RefocusFromRing r])\<rparr>"
      have r1: "ringInv ring1"
        using inv by (auto simp: ringInv_def ring1_def)
      have w0: "indicesInRange w0" using assms(1) by (simp add: indicesInRange_def w0_def)
      have "keydown_ring r keyCode w = Inr (setRing r ring1 w0)"
        unfolding keydown_ring_terminal [OF act' place] ring1_def w0_def ring_def ..
      with assms(2) have "w' = setRing r ring1 w0" by simp
      then show ?thesis using indicesInRange_setRing [OF w0 r1] by simp
    next
      case other
      then have "keydown_ring r keyCode w = Inr w" by (rule keydown_ring_other)
      with assms show ?thesis by simp
    qed
  qed
qed

lemma fireTimeout_inv:
  assumes "indicesInRange w" and "fireTimeout t w = Inr w'"
  shows "indicesInRange w'"
proof (cases t)
  case RefocusFromView
  with assms show ?thesis
    by (auto simp: fireTimeout_def runTimeout_def indicesInRange_def split: if_splits option.splits)
next
  case (RefocusFromRing r)
  have "ringInv ((ringOf r w)\<lparr>activeBucketFront := None\<rparr>)"
    using ringInv_world [OF assms(1), of r] by (simp add: ringInv_def)
  moreover have "ringOf r (w\<lparr>timeouts := ts\<rparr>) = ringOf r w" for ts by (cases r) simp_all
  ultimately show ?thesis
    using assms RefocusFromRing
    by (auto simp: fireTimeout_def runTimeout_def split: if_splits option.splits
        intro!: indicesInRange_setRing indicesInRange_frame)
qed

lemma dispatch_inv:
  assumes "indicesInRange w" and "dispatch e w = Inr w'"
  shows "indicesInRange w'"
proof (cases e)
  case (AccessibleSelect p b)
  with assms show ?thesis by (auto simp: accessibleSelect_def indicesInRange_def)
next
  case (KeydownView k)
  with assms show ?thesis by (auto intro: keydown_view_inv)
next
  case (KeydownRing r k)
  with assms show ?thesis by (auto intro: keydown_ring_inv)
next
  case (FireTimeout t)
  with assms show ?thesis by (auto intro: fireTimeout_inv)
qed

lemma run_inv:
  assumes "indicesInRange w" and "run es w = Inr w'"
  shows "indicesInRange w'"
  using assms
proof (induction es arbitrary: w)
  case Nil
  then show ?case by simp
next
  case (Cons e es)
  then show ?case by (auto split: sum.splits dest: dispatch_inv)
qed

text \<open>
  In every world that a sequence of events reaches from a new view, the index of the top
  level is inside the three options, and a ring that holds a particle has its index inside
  its markers, one marker per position and a previously focused marker.
\<close>

lemma reachable_indices:
  assumes "run es (newElectronShellView store positions ri ro rn count focused) = Inr w"
  shows "0 \<le> currentOptionIndex w \<and> currentOptionIndex w < 3"
    and "choosingElectronPlacement (ringOf r w) \<and> activeParticle (ringOf r w) = Some particle \<and>
         activeBucketFront (ringOf r w) = Some bucketFront \<Longrightarrow>
         choosing r particle bucketFront w \<and> 0 \<le> currentOptionIndex_ring (ringOf r w) \<and>
         currentOptionIndex_ring (ringOf r w) < int (length (electronPlacementNodes (ringOf r w)))"
proof -
  have inv: "indicesInRange w" using run_inv [OF indicesInRange_new assms] .
  then show "0 \<le> currentOptionIndex w \<and> currentOptionIndex w < 3"
    by (simp add: indicesInRange_def)
  assume act: "choosingElectronPlacement (ringOf r w) \<and> activeParticle (ringOf r w) = Some particle \<and>
         activeBucketFront (ringOf r w) = Some bucketFront"
  from ringInv_world [OF inv, of r] act
  show "choosing r particle bucketFront w \<and> 0 \<le> currentOptionIndex_ring (ringOf r w) \<and>
         currentOptionIndex_ring (ringOf r w) < int (length (electronPlacementNodes (ringOf r w)))"
    by (auto simp: ringInv_def choosing_def)
qed

subsection \<open>Terminal events\<close>


subsection \<open>One session at a time\<close>


























text \<open>
  After a terminal event at the top level the view keeps
  \<^verbatim>\<open>selectingShellNucleusOptions\<close> set: the branch that enters a ring clears the flag,
  the terminal branch does not. The terminal keys are ignored from then on, as the particle
  is gone, but an arrow key reaches the null particle and throws.
\<close>

lemma arrow_without_particle_throws:
  assumes "selectingShellNucleusOptions w" and "currentlyDraggedParticle w = None"
    and "isDownRight keyCode \<or> isUpLeft keyCode"
  shows "keydown_view keyCode w = Inl TypeError"
  using assms by (auto simp: keydown_view_def split: option.splits)

lemma arrow_after_escape_throws:
  "run [AccessibleSelect 1 10, KeydownView KEY_ESCAPE, KeydownView KEY_DOWN_ARROW] exampleView
     = Inl TypeError"
  by (simp add: accessibleSelect_def keydown_view_def isDownRight_def isUpLeft_def isPlaceOrEnd_def
        js_rem_def at_index_def shellNucluesOptions_def updateParticle_def exampleView_fields Let_def)

subsection \<open>Starting a selection during a selection\<close>

text \<open>
  C3, as the code has it. \<^verbatim>\<open>accessibleSelect\<close> has no rejection: in every world it
  returns normally, replaces the stored particle and origin by its arguments and sets
  \<^verbatim>\<open>selectingShellNucleusOptions\<close> (the top level); it leaves the index, both rings, the
  particles and the queued callbacks as they were.
\<close>

theorem accessibleSelect_overwrites:
  "currentlyDraggedParticle (accessibleSelect particle bucketFront w) = Some particle \<and>
   currentlySelectedBucketFront (accessibleSelect particle bucketFront w) = Some bucketFront \<and>
   selectingShellNucleusOptions (accessibleSelect particle bucketFront w) \<and>
   currentOptionIndex (accessibleSelect particle bucketFront w) = currentOptionIndex w \<and>
   innerRing (accessibleSelect particle bucketFront w) = innerRing w \<and>
   outerRing (accessibleSelect particle bucketFront w) = outerRing w \<and>
   particles (accessibleSelect particle bucketFront w) = particles w \<and>
   timeouts (accessibleSelect particle bucketFront w) = timeouts w"
  by (simp add: accessibleSelect_def)

text \<open>
  The claim C3 as stated fails: a second selection started during the first is accepted
  and the particle and origin of the first are overwritten.
\<close>

theorem second_select_counterexample:
  "map_sum id currentlyDraggedParticle
     (run [AccessibleSelect 1 10, KeydownView KEY_DOWN_ARROW] exampleView) = Inr (Some 1) \<and>
   map_sum id currentlyDraggedParticle
     (run [AccessibleSelect 1 10, KeydownView KEY_DOWN_ARROW, AccessibleSelect 2 20] exampleView)
       = Inr (Some 2) \<and>
   map_sum id currentlySelectedBucketFront
     (run [AccessibleSelect 1 10, KeydownView KEY_DOWN_ARROW, AccessibleSelect 2 20] exampleView)
       = Inr (Some 20)"
  by (simp add: accessibleSelect_def keydown_view_def isDownRight_def js_rem_def at_index_def
        shellNucluesOptions_def updateParticle_def exampleView_fields)

subsection \<open>The direction of the arrow keys\<close>

text \<open>
  C4. The two listeners disagree on the arrow keys. On the example atom, from index 0,
  the down arrow increments the index of the top level (to 1) and the up arrow decrements
  it (to 2, of 3 options); on the outer ring with its eight slots the down arrow decrements
  the index (to 7) and the up arrow increments it (to 1).
\<close>

theorem arrow_keys_inverted:
  "map_sum id currentOptionIndex
     (run [AccessibleSelect 1 10, KeydownView KEY_DOWN_ARROW] exampleView) = Inr 1 \<and>
   map_sum id currentOptionIndex
     (run [AccessibleSelect 1 10, KeydownView KEY_UP_ARROW] exampleView) = Inr 2 \<and>
   map_sum id (currentOptionIndex_ring \<circ> outerRing)
     (run [AccessibleSelect 1 10, KeydownView KEY_DOWN_ARROW, KeydownView KEY_DOWN_ARROW,
           KeydownView KEY_ENTER] exampleView) = Inr 0 \<and>
   map_sum id (currentOptionIndex_ring \<circ> outerRing)
     (run [AccessibleSelect 1 10, KeydownView KEY_DOWN_ARROW, KeydownView KEY_DOWN_ARROW,
           KeydownView KEY_ENTER, KeydownRing OuterRing KEY_DOWN_ARROW] exampleView) = Inr 7 \<and>
   map_sum id (currentOptionIndex_ring \<circ> outerRing)
     (run [AccessibleSelect 1 10, KeydownView KEY_DOWN_ARROW, KeydownView KEY_DOWN_ARROW,
           KeydownView KEY_ENTER, KeydownRing OuterRing KEY_UP_ARROW] exampleView) = Inr 1"
  by (simp add: accessibleSelect_def keydown_view_def keydown_ring_def isDownRight_def isUpLeft_def
        isPlaceOrEnd_def js_rem_def at_index_def shellNucluesOptions_def updateParticle_def
        updateNode_def chooseElectron_def exampleView_fields exampleView_rings
        newElectronRingNode_def Let_def)

subsection \<open>Cycling through the options\<close>

text \<open>
  C7. In a session at the top level whose index is inside the three options, an arrow key
  moves the index by one modulo 3 (plus one for down and right, minus one for up and left)
  to an index that is again inside, and three presses of the same key bring it back. In a
  session at the slot level whose index is inside the ring's markers, an arrow key moves
  the index by one modulo the number of markers (plus one for up and left, minus one for
  down and right) to an index that is again inside, and as many presses as there are
  markers bring it back. No press yields a negative index. The indices are inside in every
  session that a sequence of events reaches from a new view, by the lemma on reachable
  worlds above.
\<close>

theorem index_cycles:
  "(selectingShellNucleusOptions w \<and> currentlyDraggedParticle w = Some particle \<and>
    0 \<le> currentOptionIndex w \<and> currentOptionIndex w < 3 \<and>
    (isDownRight keyCode \<or> isUpLeft keyCode) \<longrightarrow>
      (\<exists>w1. keydown_view keyCode w = Inr w1 \<and>
            currentOptionIndex w1
              = (currentOptionIndex w + (if isDownRight keyCode then 1 else - 1)) mod 3 \<and>
            0 \<le> currentOptionIndex w1 \<and> currentOptionIndex w1 < 3) \<and>
      (\<exists>w3. run (replicate 3 (KeydownView keyCode)) w = Inr w3 \<and>
            currentOptionIndex w3 = currentOptionIndex w)) \<and>
   (choosing r particle bucketFront w \<and>
    0 \<le> currentOptionIndex_ring (ringOf r w) \<and>
    currentOptionIndex_ring (ringOf r w) < int (length (electronPlacementNodes (ringOf r w))) \<and>
    (isDownRight keyCode \<or> isUpLeft keyCode) \<longrightarrow>
      (\<exists>w1. keydown_ring r keyCode w = Inr w1 \<and>
            currentOptionIndex_ring (ringOf r w1)
              = (currentOptionIndex_ring (ringOf r w) + (if isUpLeft keyCode then 1 else - 1))
                  mod int (length (electronPlacementNodes (ringOf r w))) \<and>
            0 \<le> currentOptionIndex_ring (ringOf r w1) \<and>
            currentOptionIndex_ring (ringOf r w1) < int (length (electronPlacementNodes (ringOf r w)))) \<and>
      (\<exists>wn. run (replicate (length (electronPlacementNodes (ringOf r w))) (KeydownRing r keyCode)) w
              = Inr wn \<and>
            currentOptionIndex_ring (ringOf r wn) = currentOptionIndex_ring (ringOf r w)))"
proof (intro conjI impI)
  assume a: "selectingShellNucleusOptions w \<and> currentlyDraggedParticle w = Some particle \<and>
    0 \<le> currentOptionIndex w \<and> currentOptionIndex w < 3 \<and>
    (isDownRight keyCode \<or> isUpLeft keyCode)"
  then have arrow: "isDownRight keyCode \<or> isUpLeft keyCode" by simp
  define d :: int where "d = (if isDownRight keyCode then 1 else - 1)"
  define I where "I = (\<lambda>w::world. selectingShellNucleusOptions w \<and> currentlyDraggedParticle w = Some particle \<and>
    0 \<le> currentOptionIndex w \<and> currentOptionIndex w < 3)"
  have step: "\<exists>w'. dispatch (KeydownView keyCode) w = Inr w' \<and> I w' \<and>
                 currentOptionIndex w' = (currentOptionIndex w + d) mod int 3" if "I w" for w
  proof -
    from that have h: "selectingShellNucleusOptions w" "currentlyDraggedParticle w = Some particle"
      "0 \<le> currentOptionIndex w" "currentOptionIndex w < 3" by (simp_all add: I_def)
    from keydown_view_arrow [OF h arrow] show ?thesis
      by (auto simp: I_def d_def)
  qed
  have Iw: "I w" using a by (simp add: I_def)
  from step [OF Iw] show "\<exists>w1. keydown_view keyCode w = Inr w1 \<and>
            currentOptionIndex w1
              = (currentOptionIndex w + (if isDownRight keyCode then 1 else - 1)) mod 3 \<and>
            0 \<le> currentOptionIndex w1 \<and> currentOptionIndex w1 < 3"
    by (auto simp: I_def d_def)
  from run_replicate [where I = I and f = currentOptionIndex and n = 3
        and g = "\<lambda>i. (i + d) mod int 3", OF step Iw]
  obtain w3 where w3: "run (replicate 3 (KeydownView keyCode)) w = Inr w3"
      "currentOptionIndex w3 = ((\<lambda>i. (i + d) mod int 3) ^^ 3) (currentOptionIndex w)"
    by blast
  have "((\<lambda>i. (i + d) mod int 3) ^^ 3) (currentOptionIndex w) = currentOptionIndex w"
    using a by (intro full_cycle) simp_all
  with w3 show "\<exists>w3. run (replicate 3 (KeydownView keyCode)) w = Inr w3 \<and>
            currentOptionIndex w3 = currentOptionIndex w"
    by simp
next
  assume a: "choosing r particle bucketFront w \<and>
    0 \<le> currentOptionIndex_ring (ringOf r w) \<and>
    currentOptionIndex_ring (ringOf r w) < int (length (electronPlacementNodes (ringOf r w))) \<and>
    (isDownRight keyCode \<or> isUpLeft keyCode)"
  then have arrow: "isDownRight keyCode \<or> isUpLeft keyCode" by simp
  define n where "n = length (electronPlacementNodes (ringOf r w))"
  define d :: int where "d = (if isUpLeft keyCode then 1 else - 1)"
  define I where "I = (\<lambda>w::world. choosing r particle bucketFront w \<and>
    length (electronPlacementNodes (ringOf r w)) = n \<and>
    0 \<le> currentOptionIndex_ring (ringOf r w) \<and> currentOptionIndex_ring (ringOf r w) < int n)"
  have step: "\<exists>w'. dispatch (KeydownRing r keyCode) w = Inr w' \<and> I w' \<and>
                 currentOptionIndex_ring (ringOf r w') = (currentOptionIndex_ring (ringOf r w) + d) mod int n"
    if "I w" for w
  proof -
    from that have h: "choosing r particle bucketFront w"
      "0 \<le> currentOptionIndex_ring (ringOf r w)"
      "currentOptionIndex_ring (ringOf r w) < int (length (electronPlacementNodes (ringOf r w)))"
      and len: "length (electronPlacementNodes (ringOf r w)) = n"
      by (simp_all add: I_def)
    have npos: "0 < int n" using h(2,3) len by linarith
    from keydown_ring_arrow [OF h arrow] obtain w' where w': "keydown_ring r keyCode w = Inr w'"
      "choosing r particle bucketFront w'"
      "length (electronPlacementNodes (ringOf r w')) = n"
      "currentOptionIndex_ring (ringOf r w') = (currentOptionIndex_ring (ringOf r w) + d) mod int n"
      by (auto simp: len d_def)
    have "0 \<le> currentOptionIndex_ring (ringOf r w')" "currentOptionIndex_ring (ringOf r w') < int n"
      unfolding w'(4) using npos by simp_all
    with w' show ?thesis by (simp add: I_def)
  qed
  have Iw: "I w" using a by (simp add: I_def n_def)
  from step [OF Iw] show "\<exists>w1. keydown_ring r keyCode w = Inr w1 \<and>
            currentOptionIndex_ring (ringOf r w1)
              = (currentOptionIndex_ring (ringOf r w) + (if isUpLeft keyCode then 1 else - 1))
                  mod int (length (electronPlacementNodes (ringOf r w))) \<and>
            0 \<le> currentOptionIndex_ring (ringOf r w1) \<and>
            currentOptionIndex_ring (ringOf r w1) < int (length (electronPlacementNodes (ringOf r w)))"
    by (auto simp: I_def d_def n_def)
  from run_replicate [where I = I and f = "\<lambda>w. currentOptionIndex_ring (ringOf r w)" and n = n
        and g = "\<lambda>i. (i + d) mod int n", OF step Iw]
  obtain wn where wn: "run (replicate n (KeydownRing r keyCode)) w = Inr wn"
      "currentOptionIndex_ring (ringOf r wn)
        = ((\<lambda>i. (i + d) mod int n) ^^ n) (currentOptionIndex_ring (ringOf r w))"
    by blast
  have "((\<lambda>i. (i + d) mod int n) ^^ n) (currentOptionIndex_ring (ringOf r w))
        = currentOptionIndex_ring (ringOf r w)"
    using a by (intro full_cycle) (simp_all add: n_def)
  with wn show "\<exists>wn. run (replicate (length (electronPlacementNodes (ringOf r w))) (KeydownRing r keyCode)) w
              = Inr wn \<and>
            currentOptionIndex_ring (ringOf r wn) = currentOptionIndex_ring (ringOf r w)"
    by (simp add: n_def)
qed

theorem index_cycles_witness:
  "selectingShellNucleusOptions (accessibleSelect 1 10 exampleView) \<and>
   currentlyDraggedParticle (accessibleSelect 1 10 exampleView) = Some 1 \<and>
   currentOptionIndex (accessibleSelect 1 10 exampleView) = 0 \<and>
   isUpLeft KEY_UP_ARROW \<and>
   map_sum id currentOptionIndex (keydown_view KEY_UP_ARROW (accessibleSelect 1 10 exampleView))
     = Inr 2 \<and>
   map_sum id currentOptionIndex
     (run (replicate 3 (KeydownView KEY_UP_ARROW)) (accessibleSelect 1 10 exampleView)) = Inr 0 \<and>
   (\<exists>w. run [AccessibleSelect 1 10, KeydownView KEY_DOWN_ARROW, KeydownView KEY_DOWN_ARROW,
              KeydownView KEY_ENTER] exampleView = Inr w \<and>
        choosing OuterRing 1 10 w \<and>
        currentOptionIndex_ring (ringOf OuterRing w) = 0 \<and>
        length (electronPlacementNodes (ringOf OuterRing w)) = 8 \<and>
        map_sum id (currentOptionIndex_ring \<circ> ringOf OuterRing)
          (keydown_ring OuterRing KEY_UP_ARROW w) = Inr 1 \<and>
        map_sum id (currentOptionIndex_ring \<circ> ringOf OuterRing)
          (run (replicate 8 (KeydownRing OuterRing KEY_UP_ARROW)) w) = Inr 0)"
proof -
  let ?top = "accessibleSelect 1 10 exampleView"
  have top: "selectingShellNucleusOptions ?top" "currentlyDraggedParticle ?top = Some 1"
    "currentOptionIndex ?top = 0" and up: "isUpLeft KEY_UP_ARROW" "\<not> isDownRight KEY_UP_ARROW"
    by (simp_all add: accessibleSelect_def exampleView_fields isUpLeft_def isDownRight_def)
  from example_outer_ring_entered obtain w where
    w: "run [AccessibleSelect 1 10, KeydownView KEY_DOWN_ARROW, KeydownView KEY_DOWN_ARROW,
              KeydownView KEY_ENTER] exampleView = Inr w"
       "choosing OuterRing 1 10 w" "currentOptionIndex_ring (outerRing w) = 0"
       "length (electronPlacementNodes (outerRing w)) = 8"
    by auto
  have "map_sum id currentOptionIndex (keydown_view KEY_UP_ARROW ?top) = Inr 2 \<and>
        map_sum id currentOptionIndex (run (replicate 3 (KeydownView KEY_UP_ARROW)) ?top) = Inr 0"
    using index_cycles [of ?top 1 KEY_UP_ARROW OuterRing 10] top up by auto
  moreover have "map_sum id (currentOptionIndex_ring \<circ> ringOf OuterRing)
          (keydown_ring OuterRing KEY_UP_ARROW w) = Inr 1 \<and>
        map_sum id (currentOptionIndex_ring \<circ> ringOf OuterRing)
          (run (replicate 8 (KeydownRing OuterRing KEY_UP_ARROW)) w) = Inr 0"
    using index_cycles [of w 1 KEY_UP_ARROW OuterRing 10] w up by auto
  ultimately show ?thesis using top up w by auto
qed

subsection \<open>Idle worlds\<close>

lemma idle_new: "idle (newElectronShellView store positions ri ro rn count focused)"
  by (simp add: idle_def newElectronShellView_def newElectronRingNode_def)

text \<open>A terminal event of the only session under way leaves an idle world.\<close>

lemma idle_after_view_terminal:
  assumes "selectingShellNucleusOptions w" and "currentlyDraggedParticle w = Some particle"
    and "currentlySelectedBucketFront w = Some bucketFront" and "isPlaceOrEnd keyCode"
    and "currentOptionIndex w = 0 \<or> keyCode = KEY_TAB \<or> keyCode = KEY_ESCAPE"
    and "activeParticle (innerRing w) = None" and "activeParticle (outerRing w) = None"
    and "keydown_view keyCode w = Inr w'"
  shows "idle w'"
  using assms(6-8) unfolding keydown_view_terminal [OF assms(1-5)]
  by (auto simp: idle_def)

lemma idle_after_ring_terminal:
  assumes "choosingElectronPlacement (ringOf r w)" and "activeParticle (ringOf r w) = Some particle"
    and "activeBucketFront (ringOf r w) = Some bucketFront" and "isPlaceOrEnd keyCode"
    and "\<not> selectingShellNucleusOptions w"
    and "\<And>r'. r' \<noteq> r \<Longrightarrow> activeParticle (ringOf r' w) = None"
    and "keydown_ring r keyCode w = Inr w'"
  shows "idle w'"
proof -
  have other: "activeParticle (outerRing w) = None" if "r = InnerRing"
    using assms(6) [of OuterRing] that by simp
  have other': "activeParticle (innerRing w) = None" if "r = OuterRing"
    using assms(6) [of InnerRing] that by simp
  show ?thesis
    using assms(5,7) other other' unfolding keydown_ring_terminal [OF assms(1-4)]
    by (cases r) (auto simp: idle_def)
qed

subsection \<open>Keys without a session\<close>

text \<open>
  C8. In an idle world Enter, Space, Tab and Escape do nothing in either listener: the
  listener returns without throwing and the world (particles, indices, focus, markers,
  calls and queued callbacks) is the one before.
\<close>

theorem idle_noop:
  assumes "idle w" and "isPlaceOrEnd keyCode"
  shows "keydown_view keyCode w = Inr w \<and> keydown_ring r keyCode w = Inr w"
proof -
  note notArrow = not_arrow_if_place [OF assms(2)]
  have v: "keydown_view keyCode w = Inr w"
    using assms notArrow by (auto simp: keydown_view_def idle_def)
  have "activeParticle (ringOf r w) = None"
    using assms(1) by (cases r) (simp_all add: idle_def)
  then have "keydown_ring r keyCode w = Inr w"
    by (simp add: keydown_ring_def Let_def split: bool.splits)
  with v show ?thesis by simp
qed

theorem idle_noop_witness:
  "idle exampleView \<and> isPlaceOrEnd KEY_ESCAPE \<and>
   keydown_view KEY_ESCAPE exampleView = Inr exampleView \<and>
   keydown_ring OuterRing KEY_ESCAPE exampleView = Inr exampleView"
  using idle_noop [of exampleView KEY_ESCAPE OuterRing] idle_exampleView
  by (simp add: isPlaceOrEnd_def)

subsection \<open>The deferred refocus\<close>

text \<open>
  C9, as the code has it. The queued callback is never cancelled: \<^verbatim>\<open>accessibleSelect\<close>
  leaves the queue as it is, and when the callback of the view runs after a new selection
  has been started it focuses the origin of the new selection and clears the stored origin,
  while the new selection is still under way.
\<close>

theorem stale_refocus:
  assumes "RefocusFromView \<in> set (timeouts w)"
  shows "timeouts (accessibleSelect particle bucketFront w) = timeouts w \<and>
         (\<exists>w'. fireTimeout RefocusFromView (accessibleSelect particle bucketFront w) = Inr w' \<and>
               focus w' = Some (BucketFrontNode bucketFront) \<and>
               currentlySelectedBucketFront w' = None \<and>
               currentlyDraggedParticle w' = Some particle \<and>
               selectingShellNucleusOptions w')"
  using assms by (simp add: accessibleSelect_def fireTimeout_def runTimeout_def)

theorem stale_refocus_witness:
  "\<exists>w. run [AccessibleSelect 1 10, KeydownView KEY_ESCAPE] exampleView = Inr w \<and>
       RefocusFromView \<in> set (timeouts w) \<and>
       timeouts (accessibleSelect 2 20 w) = [RefocusFromView] \<and>
       map_sum id focus (fireTimeout RefocusFromView (accessibleSelect 2 20 w))
         = Inr (Some (BucketFrontNode 20))"
proof -
  let ?w = "(accessibleSelect 1 10 exampleView)
          \<lparr>addParticleFirstOpenCalls := [(10, 1, True)],
           particles := exampleStore(1 := (exampleStore 1)\<lparr>userControlledProperty := False,
                                                          isAccessibleControlled := Some False\<rparr>),
           focusable_view := Some False,
           currentlyDraggedParticle := None,
           timeouts := [RefocusFromView]\<rparr>"
  have pending: "RefocusFromView \<in> set (timeouts ?w)" "timeouts ?w = [RefocusFromView]" by simp_all
  have "timeouts (accessibleSelect 2 20 ?w) = [RefocusFromView] \<and>
        map_sum id focus (fireTimeout RefocusFromView (accessibleSelect 2 20 ?w))
          = Inr (Some (BucketFrontNode 20))"
    using stale_refocus [OF pending(1), of 2 20] pending(2) by auto
  with after_escape pending(1) show ?thesis by blast
qed

text \<open>
  The claim C9 as stated fails: after Escape and a new selection the callback is still
  queued; when it runs, the focus moves from the option of the new selection to the
  bucket front, and the origin of the new selection is forgotten.
\<close>

theorem stale_refocus_counterexample:
  "map_sum id focus
     (run [AccessibleSelect 1 10, KeydownView KEY_ESCAPE, AccessibleSelect 2 20] exampleView)
     = Inr (Some (OptionNode CenterOption)) \<and>
   map_sum id timeouts
     (run [AccessibleSelect 1 10, KeydownView KEY_ESCAPE, AccessibleSelect 2 20] exampleView)
     = Inr [RefocusFromView] \<and>
   map_sum id focus
     (run [AccessibleSelect 1 10, KeydownView KEY_ESCAPE, AccessibleSelect 2 20,
           FireTimeout RefocusFromView] exampleView)
     = Inr (Some (BucketFrontNode 20)) \<and>
   map_sum id currentlySelectedBucketFront
     (run [AccessibleSelect 1 10, KeydownView KEY_ESCAPE, AccessibleSelect 2 20,
           FireTimeout RefocusFromView] exampleView)
     = Inr None"
  by (simp add: accessibleSelect_def keydown_view_def isDownRight_def isUpLeft_def isPlaceOrEnd_def
        updateParticle_def exampleView_fields Let_def fireTimeout_def runTimeout_def)

end
